theory Spec2Isabelle
  imports Main "HOL-Library.Word"
begin

unbundle bit_operations_syntax

section \<open>Machine types\<close>

type_synonym UInt32 = "32 word"
type_synonym UInt64 = "64 word"
type_synonym SInt32 = "32 word"
type_synonym pid_t = "32 word"

text \<open>
  \<open>SInt32\<close> and \<open>pid_t\<close> are signed 32-bit integers: the model keeps their bit pattern
  and reads it with \<open>sint\<close> or compares it with \<open><s\<close> wherever the source compares by
  order.
\<close>

text \<open>
  A \<open>Float32\<close> is its IEEE-754 binary32 bit pattern. The only float operation the control
  path performs is the comparison \<open>!=\<close>, which is defined on the bit pattern below; float
  arithmetic (\<open>+\<close>, \<open>*\<close>) is not interpreted and enters the real-time path as a parameter.
\<close>

datatype Float32 = F32 (f32_bits: UInt32)
datatype Float64 = F64 (f64_bits: UInt64)

definition f32_zero :: Float32 where
  "f32_zero = F32 0"

definition f32_one :: Float32 where
  "f32_one = F32 0x3F800000"

definition f32_is_nan :: "Float32 \<Rightarrow> bool" where
  "f32_is_nan x =
     (f32_bits x AND 0x7F800000 = 0x7F800000 \<and> f32_bits x AND 0x007FFFFF \<noteq> 0)"

definition f32_is_zero :: "Float32 \<Rightarrow> bool" where
  "f32_is_zero x = (f32_bits x AND 0x7FFFFFFF = 0)"

text \<open>The C++ \<open>a != b\<close> on floats: true when either side is a NaN; the two zeros are equal.\<close>

definition f32_ne :: "Float32 \<Rightarrow> Float32 \<Rightarrow> bool" where
  "f32_ne a b =
     (f32_is_nan a \<or> f32_is_nan b \<or> (a \<noteq> b \<and> \<not> (f32_is_zero a \<and> f32_is_zero b)))"

section \<open>Client records (BGM\_Client)\<close>

record BGM_AudioRoute =
  mSourcePID :: pid_t
  mDestPID :: pid_t
  mGain :: Float32
  mEnabled :: bool

text \<open>
  \<open>mBundleID\<close> is a \<open>CACFString\<close>: \<open>None\<close> is the invalid (NULL) string.
  \<open>mRoutingBuffer\<close> is the owned array, \<open>None\<close> for \<open>nullptr\<close>.
\<close>

record BGM_Client =
  mClientID :: UInt32
  mProcessID :: pid_t
  mIsNativeEndian :: bool
  mBundleID :: "string option"
  mDoingIO :: bool
  mIsMusicPlayer :: bool
  mRelativeVolume :: Float32
  mPanPosition :: SInt32
  mEQLowGain :: Float32
  mEQMidGain :: Float32
  mEQHighGain :: Float32
  mOutgoingRoutes :: "BGM_AudioRoute list"
  mRoutingBuffer :: "Float32 list option"
  mRoutingBufferAllocated :: bool
  mRoutingBufferWritePos :: UInt64
  mRoutingBufferSampleTime :: Float64

text \<open>
  Modelled from the spec: the constants \<open>kRoutingBufferFrames\<close> and
  \<open>kRoutingBufferChannels\<close> of BGM\_Client.h, which is not among the sources. The spec
  fixes the ring at \<open>RING_FRAMES\<close> interleaved stereo frames, a power of two, "e.g. 8192".
\<close>

definition kRoutingBufferFrames :: nat where
  "kRoutingBufferFrames = 8192"

definition kRoutingBufferChannels :: nat where
  "kRoutingBufferChannels = 2"

definition AllocateRoutingBuffer :: "BGM_Client \<Rightarrow> BGM_Client" where
  "AllocateRoutingBuffer c =
     (if \<not> mRoutingBufferAllocated c \<and> mRoutingBuffer c = None
      then c\<lparr>mRoutingBuffer := Some (replicate (kRoutingBufferFrames * kRoutingBufferChannels) f32_zero),
             mRoutingBufferAllocated := True,
             mRoutingBufferWritePos := 0\<rparr>
      else c)"

definition DeallocateRoutingBuffer :: "BGM_Client \<Rightarrow> BGM_Client" where
  "DeallocateRoutingBuffer c =
     (if mRoutingBufferAllocated c \<and> mRoutingBuffer c \<noteq> None
      then c\<lparr>mRoutingBuffer := None,
             mRoutingBufferAllocated := False,
             mRoutingBufferWritePos := 0\<rparr>
      else c)"

text \<open>
  \<open>UInt32 bufferOffset = (pos % kRoutingBufferFrames) * kRoutingBufferChannels\<close>: computed
  in 64 bits and truncated to 32.
\<close>

definition bufferOffset :: "UInt64 \<Rightarrow> UInt32" where
  "bufferOffset pos =
     ucast ((pos mod word_of_nat kRoutingBufferFrames) * word_of_nat kRoutingBufferChannels)"

text \<open>
  One iteration of the store loop, for the loop counter \<open>frame\<close>. The index
  \<open>frame * 2 + c\<close> into \<open>inBuffer\<close> is computed in \<open>UInt32\<close>. The caller owes a buffer
  of \<open>inFrameCount\<close> stereo frames; what is read past the end of a shorter one is left
  open, as it is in the source, and every statement below about stored samples assumes the
  buffer is as long as announced.
\<close>

definition store_frame :: "Float32 list \<Rightarrow> Float32 list \<times> UInt64 \<Rightarrow> nat \<Rightarrow> Float32 list \<times> UInt64" where
  "store_frame inBuffer st frame =
     (let buf = fst st; writePos = snd st;
          off = bufferOffset writePos;
          f = (word_of_nat frame :: UInt32);
          buf1 = buf[unat (off + 0) := inBuffer ! unat (f * 2 + 0)];
          buf2 = buf1[unat (off + 1) := inBuffer ! unat (f * 2 + 1)]
      in (buf2, writePos + 1))"

text \<open>
  \<open>StoreToRoutingBuffer\<close>. The sum \<open>inSampleTime + inFrameCount\<close> is Float64 arithmetic
  and enters as the parameter \<open>f64_add_frames\<close>.
\<close>

definition StoreToRoutingBuffer ::
  "(Float64 \<Rightarrow> UInt32 \<Rightarrow> Float64) \<Rightarrow> BGM_Client \<Rightarrow> Float32 list \<Rightarrow> UInt32 \<Rightarrow> Float64 \<Rightarrow> BGM_Client" where
  "StoreToRoutingBuffer f64_add_frames c inBuffer inFrameCount inSampleTime =
     (case mRoutingBuffer c of
        None \<Rightarrow> c
      | Some buf \<Rightarrow>
          if \<not> mRoutingBufferAllocated c then c
          else
            (let r = foldl (store_frame inBuffer) (buf, mRoutingBufferWritePos c)
                       [0 ..< unat inFrameCount]
             in c\<lparr>mRoutingBuffer := Some (fst r),
                   mRoutingBufferWritePos := snd r,
                   mRoutingBufferSampleTime := f64_add_frames inSampleTime inFrameCount\<rparr>))"

definition FetchFromRoutingBuffer :: "BGM_Client \<Rightarrow> SInt32 \<Rightarrow> UInt64 \<Rightarrow> Float32" where
  "FetchFromRoutingBuffer c inChannel inSampleOffset =
     (case mRoutingBuffer c of
        None \<Rightarrow> f32_zero
      | Some buf \<Rightarrow>
          if \<not> mRoutingBufferAllocated c then f32_zero
          else
            (let readPos = mRoutingBufferWritePos c
             in if readPos < inSampleOffset then f32_zero
                else
                  (let targetPos = readPos - inSampleOffset;
                       off = bufferOffset targetPos
                   in if sint inChannel < 0 \<or> sint inChannel \<ge> int kRoutingBufferChannels
                      then f32_zero
                      else buf ! unat (off + ucast inChannel))))"

text \<open>The buffer can be used: the test both operations make before touching it.\<close>

definition routing_buffer_usable :: "BGM_Client \<Rightarrow> bool" where
  "routing_buffer_usable c = (mRoutingBufferAllocated c \<and> mRoutingBuffer c \<noteq> None)"

text \<open>A sequence of \<open>Store\<close> calls, each with its buffer, frame count and sample time.\<close>

definition store_calls ::
  "(Float64 \<Rightarrow> UInt32 \<Rightarrow> Float64) \<Rightarrow> BGM_Client \<Rightarrow> (Float32 list \<times> UInt32 \<times> Float64) list \<Rightarrow> BGM_Client" where
  "store_calls f c calls =
     foldl (\<lambda>c call. StoreToRoutingBuffer f c (fst call) (fst (snd call)) (snd (snd call))) c calls"

text \<open>
  The buffer is allocated and has the size \<open>AllocateRoutingBuffer\<close> gives it; no operation
  of the client changes that size.
\<close>

definition routing_buffer_allocated :: "BGM_Client \<Rightarrow> bool" where
  "routing_buffer_allocated c =
     (mRoutingBufferAllocated c \<and>
      (case mRoutingBuffer c of None \<Rightarrow> False
       | Some buf \<Rightarrow> length buf = kRoutingBufferFrames * kRoutingBufferChannels))"

text \<open>
  The invariant of the ring since \<open>write_pos\<close> was \<open>base\<close>: \<open>h\<close> is the history of the
  samples stored since then, at most one turn of the ring, \<open>write_pos\<close> has advanced by the
  frames of \<open>h\<close>, and frame \<open>p\<close> of \<open>h\<close> lies in the slot \<open>(base + p) mod RING_FRAMES\<close>.
\<close>

definition ring_holds :: "nat \<Rightarrow> Float32 list \<Rightarrow> UInt64 \<Rightarrow> Float32 list \<Rightarrow> bool" where
  "ring_holds base buf w h =
     (length buf = kRoutingBufferFrames * kRoutingBufferChannels \<and>
      base \<le> unat w \<and> length h = 2 * (unat w - base) \<and> length h \<le> length buf \<and>
      (\<forall>i < length h.
         buf ! (((base + i div 2) mod kRoutingBufferFrames) * 2 + i mod 2) = h ! i))"

definition client_ring_holds :: "nat \<Rightarrow> BGM_Client \<Rightarrow> Float32 list \<Rightarrow> bool" where
  "client_ring_holds base c h =
     (mRoutingBufferAllocated c \<and>
      (case mRoutingBuffer c of None \<Rightarrow> False
       | Some buf \<Rightarrow> ring_holds base buf (mRoutingBufferWritePos c) h))"

text \<open>
  Modelled from the spec: the default member initialisers of BGM\_Client.h, which is not
  among the sources (not doing IO, not the music player, relative volume 1.0, pan at the
  centre 0, flat EQ, no routing buffer). With them, this is the constructor
  \<open>BGM_Client(inClientInfo)\<close>, which copies the four fields of the client info.
\<close>

definition new_BGM_Client :: "UInt32 \<Rightarrow> pid_t \<Rightarrow> bool \<Rightarrow> string option \<Rightarrow> BGM_Client" where
  "new_BGM_Client inClientID inProcessID inIsNativeEndian inBundleID =
     \<lparr>mClientID = inClientID, mProcessID = inProcessID, mIsNativeEndian = inIsNativeEndian,
      mBundleID = inBundleID, mDoingIO = False, mIsMusicPlayer = False,
      mRelativeVolume = f32_one, mPanPosition = 0,
      mEQLowGain = f32_zero, mEQMidGain = f32_zero, mEQHighGain = f32_zero,
      mOutgoingRoutes = [], mRoutingBuffer = None, mRoutingBufferAllocated = False,
      mRoutingBufferWritePos = 0, mRoutingBufferSampleTime = F64 0\<rparr>"

section \<open>The client map (BGM\_ClientMap)\<close>

text \<open>
  BGM\_ClientMap is not among the sources. The map is the collection of its client records, in
  insertion order; every operation below is modelled from the spec's description of the map.
\<close>

type_synonym BGM_ClientMap = "BGM_Client list"

text \<open>Modelled from the spec: \<open>GetClientNonRT(id)\<close> gives a copy of the record with that
  client id, if there is one; \<open>GetClientRT\<close> and \<open>GetClientPtrRT\<close> are the same lookup
  on the real-time side.\<close>

definition GetClientNonRT :: "BGM_ClientMap \<Rightarrow> UInt32 \<Rightarrow> BGM_Client option" where
  "GetClientNonRT m inClientID = find (\<lambda>c. mClientID c = inClientID) m"

definition GetClientPtrRT :: "BGM_ClientMap \<Rightarrow> UInt32 \<Rightarrow> BGM_Client option" where
  "GetClientPtrRT m inClientID = find (\<lambda>c. mClientID c = inClientID) m"

text \<open>Modelled from the spec: \<open>GetClientByPIDRT(pid)\<close> gives "any record matching"; the
  model takes the first one in the map.\<close>

definition GetClientByPIDRT :: "BGM_ClientMap \<Rightarrow> pid_t \<Rightarrow> BGM_Client option" where
  "GetClientByPIDRT m inPID = find (\<lambda>c. mProcessID c = inPID) m"

text \<open>Modelled from the spec: \<open>AddClient\<close> of the map inserts the record.\<close>

definition ClientMap_AddClient :: "BGM_ClientMap \<Rightarrow> BGM_Client \<Rightarrow> BGM_ClientMap" where
  "ClientMap_AddClient m inClient = m @ [inClient]"

text \<open>Modelled from the spec: "mark the record \<open>doing_io = true\<close> in the map", and the
  reverse for stop.\<close>

definition ClientMap_StartIONonRT :: "BGM_ClientMap \<Rightarrow> UInt32 \<Rightarrow> BGM_ClientMap" where
  "ClientMap_StartIONonRT m inClientID =
     map (\<lambda>c. if mClientID c = inClientID then c\<lparr>mDoingIO := True\<rparr> else c) m"

definition ClientMap_StopIONonRT :: "BGM_ClientMap \<Rightarrow> UInt32 \<Rightarrow> BGM_ClientMap" where
  "ClientMap_StopIONonRT m inClientID =
     map (\<lambda>c. if mClientID c = inClientID then c\<lparr>mDoingIO := False\<rparr> else c) m"

text \<open>Modelled from the spec: \<open>UpdateMusicPlayerFlags\<close> "scans the current generation and
  sets each record's \<open>is_music_player\<close> accordingly", by PID or by bundle id.\<close>

definition UpdateMusicPlayerFlags_PID :: "BGM_ClientMap \<Rightarrow> pid_t \<Rightarrow> BGM_ClientMap" where
  "UpdateMusicPlayerFlags_PID m inPID =
     map (\<lambda>c. c\<lparr>mIsMusicPlayer := (mProcessID c = inPID)\<rparr>) m"

definition UpdateMusicPlayerFlags_BundleID :: "BGM_ClientMap \<Rightarrow> string \<Rightarrow> BGM_ClientMap" where
  "UpdateMusicPlayerFlags_BundleID m inBundleID =
     map (\<lambda>c. c\<lparr>mIsMusicPlayer := (mBundleID c = Some inBundleID)\<rparr>) m"

text \<open>Modelled from the spec: a control is applied "to every matching client by PID and also
  by bundle-id"; each setter reports whether a record was written. An invalid bundle id
  matches no record.\<close>

definition SetClientsRelativeVolume_PID :: "BGM_ClientMap \<Rightarrow> pid_t \<Rightarrow> Float32 \<Rightarrow> bool \<times> BGM_ClientMap" where
  "SetClientsRelativeVolume_PID m inAppPID v =
     (list_ex (\<lambda>c. mProcessID c = inAppPID) m,
      map (\<lambda>c. if mProcessID c = inAppPID then c\<lparr>mRelativeVolume := v\<rparr> else c) m)"

definition SetClientsRelativeVolume_BundleID ::
  "BGM_ClientMap \<Rightarrow> string option \<Rightarrow> Float32 \<Rightarrow> bool \<times> BGM_ClientMap" where
  "SetClientsRelativeVolume_BundleID m inAppBundleID v =
     (list_ex (\<lambda>c. inAppBundleID \<noteq> None \<and> mBundleID c = inAppBundleID) m,
      map (\<lambda>c. if inAppBundleID \<noteq> None \<and> mBundleID c = inAppBundleID
                then c\<lparr>mRelativeVolume := v\<rparr> else c) m)"

definition SetClientsPanPosition_PID :: "BGM_ClientMap \<Rightarrow> pid_t \<Rightarrow> SInt32 \<Rightarrow> bool \<times> BGM_ClientMap" where
  "SetClientsPanPosition_PID m inAppPID p =
     (list_ex (\<lambda>c. mProcessID c = inAppPID) m,
      map (\<lambda>c. if mProcessID c = inAppPID then c\<lparr>mPanPosition := p\<rparr> else c) m)"

definition SetClientsPanPosition_BundleID ::
  "BGM_ClientMap \<Rightarrow> string option \<Rightarrow> SInt32 \<Rightarrow> bool \<times> BGM_ClientMap" where
  "SetClientsPanPosition_BundleID m inAppBundleID p =
     (list_ex (\<lambda>c. inAppBundleID \<noteq> None \<and> mBundleID c = inAppBundleID) m,
      map (\<lambda>c. if inAppBundleID \<noteq> None \<and> mBundleID c = inAppBundleID
                then c\<lparr>mPanPosition := p\<rparr> else c) m)"

text \<open>Modelled from the spec: "a sentinel \<open>EQGainNoValue\<close> means leave this band
  unchanged". The sample rate only parameterises the filters, which are outside the engine.\<close>

definition set_eq_bands :: "Float32 \<Rightarrow> Float32 \<Rightarrow> Float32 \<Rightarrow> Float32 \<Rightarrow> BGM_Client \<Rightarrow> BGM_Client" where
  "set_eq_bands noValue lowDB midDB highDB c =
     c\<lparr>mEQLowGain := (if lowDB = noValue then mEQLowGain c else lowDB),
       mEQMidGain := (if midDB = noValue then mEQMidGain c else midDB),
       mEQHighGain := (if highDB = noValue then mEQHighGain c else highDB)\<rparr>"

definition SetClientsEQ_PID ::
  "Float32 \<Rightarrow> BGM_ClientMap \<Rightarrow> pid_t \<Rightarrow> Float32 \<Rightarrow> Float32 \<Rightarrow> Float32 \<Rightarrow> bool \<times> BGM_ClientMap" where
  "SetClientsEQ_PID noValue m inAppPID lowDB midDB highDB =
     (list_ex (\<lambda>c. mProcessID c = inAppPID) m,
      map (\<lambda>c. if mProcessID c = inAppPID then set_eq_bands noValue lowDB midDB highDB c else c) m)"

definition SetClientsEQ_BundleID ::
  "Float32 \<Rightarrow> BGM_ClientMap \<Rightarrow> string option \<Rightarrow> Float32 \<Rightarrow> Float32 \<Rightarrow> Float32 \<Rightarrow> bool \<times> BGM_ClientMap" where
  "SetClientsEQ_BundleID noValue m inAppBundleID lowDB midDB highDB =
     (list_ex (\<lambda>c. inAppBundleID \<noteq> None \<and> mBundleID c = inAppBundleID) m,
      map (\<lambda>c. if inAppBundleID \<noteq> None \<and> mBundleID c = inAppBundleID
                then set_eq_bands noValue lowDB midDB highDB c else c) m)"

text \<open>Modelled from the spec: "allocate the routing buffer on the source client's record";
  the model allocates on every record of that process.\<close>

definition AllocateRoutingBufferForPID :: "BGM_ClientMap \<Rightarrow> pid_t \<Rightarrow> BGM_ClientMap" where
  "AllocateRoutingBufferForPID m inPID =
     map (\<lambda>c. if mProcessID c = inPID then AllocateRoutingBuffer c else c) m"

section \<open>The engine (BGM\_Clients)\<close>

datatype error =
    BGM_InvalidClientException
  | CAException_IllegalOperation
  | BGM_InvalidClientPIDException
  | BGM_InvalidClientRelativeVolumeException
  | BGM_InvalidClientPanPositionException

text \<open>
  \<open>mBGMAppClientID\<close> is \<open>-1\<close> while the control app is not a client. The two music-player
  properties are unset at \<open>0\<close> and at the empty string.
\<close>

record BGM_Clients =
  mClientMap :: BGM_ClientMap
  mBGMAppClientID :: int
  mStartCount :: UInt64
  mStartCountExcludingBGMApp :: UInt64
  mMusicPlayerProcessIDProperty :: pid_t
  mMusicPlayerBundleIDProperty :: string
  mRoutes :: "BGM_AudioRoute list"

text \<open>Modelled from the spec: a new engine has no client, no route, both counters at zero and
  no music player (the member initialisers of BGM\_Clients.h, which is not among the sources).\<close>

definition new_BGM_Clients :: BGM_Clients where
  "new_BGM_Clients =
     \<lparr>mClientMap = [], mBGMAppClientID = - 1, mStartCount = 0, mStartCountExcludingBGMApp = 0,
      mMusicPlayerProcessIDProperty = 0, mMusicPlayerBundleIDProperty = [], mRoutes = []\<rparr>"

text \<open>Modelled from the spec: \<open>IsBGMApp\<close> (BGM\_Clients.h) tells whether the client is the
  control app, whose client id the engine caches.\<close>

definition IsBGMApp :: "BGM_Clients \<Rightarrow> UInt32 \<Rightarrow> bool" where
  "IsBGMApp s inClientID = (uint inClientID = mBGMAppClientID s)"

text \<open>\<open>AddClient\<close>; \<open>kBGMAppBundleID\<close>, the control app's bundle id, is a constant of
  BGM\_Types.h and enters as a parameter.\<close>

definition AddClient :: "string \<Rightarrow> BGM_Clients \<Rightarrow> BGM_Client \<Rightarrow> BGM_Clients" where
  "AddClient kBGMAppBundleID s inClient =
     (let pidMatchesMusicPlayerProperty =
            (mMusicPlayerProcessIDProperty s \<noteq> 0 \<and>
             mProcessID inClient = mMusicPlayerProcessIDProperty s);
          bundleIDMatchesMusicPlayerProperty =
            (mMusicPlayerBundleIDProperty s \<noteq> [] \<and> mBundleID inClient \<noteq> None \<and>
             mBundleID inClient = Some (mMusicPlayerBundleIDProperty s));
          theClient = inClient\<lparr>mIsMusicPlayer :=
            (pidMatchesMusicPlayerProperty \<or> bundleIDMatchesMusicPlayerProperty)\<rparr>;
          s1 = s\<lparr>mClientMap := ClientMap_AddClient (mClientMap s) theClient\<rparr>
      in if mBundleID theClient \<noteq> None \<and> mBundleID theClient = Some kBGMAppBundleID
         then s1\<lparr>mBGMAppClientID := uint (mClientID theClient)\<rparr>
         else s1)"

subsection \<open>IO status\<close>

text \<open>What a start or stop call hands back: its return value and the two flags it passes to
  \<open>SendIORunningNotifications\<close>.\<close>

record io_result =
  returned :: bool
  sendIsRunningNotification :: bool
  sendIsRunningSomewhereOtherThanBGMAppNotification :: bool

definition UINT64_MAX :: UInt64 where
  "UINT64_MAX = 0xFFFFFFFFFFFFFFFF"

text \<open>A call gives its outcome, an exception or a result, and the engine as it leaves it: what
  was written before a throw stays written.\<close>

definition StartIONonRT :: "BGM_Clients \<Rightarrow> UInt32 \<Rightarrow> (error + io_result) \<times> BGM_Clients" where
  "StartIONonRT s inClientID =
     (case GetClientNonRT (mClientMap s) inClientID of
        None \<Rightarrow> (Inl BGM_InvalidClientException, s)
      | Some theClient \<Rightarrow>
          if \<not> mDoingIO theClient then
            if mStartCount s = UINT64_MAX then (Inl CAException_IllegalOperation, s)
            else
              (let s1 = s\<lparr>mClientMap := ClientMap_StartIONonRT (mClientMap s) inClientID\<rparr>;
                   s2 = s1\<lparr>mStartCount := mStartCount s1 + 1\<rparr>
               in if \<not> IsBGMApp s2 inClientID then
                    if mStartCountExcludingBGMApp s2 = UINT64_MAX
                    then (Inl CAException_IllegalOperation, s2)
                    else
                      (let s3 = s2\<lparr>mStartCountExcludingBGMApp := mStartCountExcludingBGMApp s2 + 1\<rparr>;
                           didStartIO = (mStartCount s3 = 1)
                       in (Inr \<lparr>returned = didStartIO,
                                sendIsRunningNotification = didStartIO,
                                sendIsRunningSomewhereOtherThanBGMAppNotification =
                                  (mStartCountExcludingBGMApp s3 = 1)\<rparr>, s3))
                  else
                    (let didStartIO = (mStartCount s2 = 1)
                     in (Inr \<lparr>returned = didStartIO,
                              sendIsRunningNotification = didStartIO,
                              sendIsRunningSomewhereOtherThanBGMAppNotification = False\<rparr>, s2)))
          else
            (Inr \<lparr>returned = False, sendIsRunningNotification = False,
                  sendIsRunningSomewhereOtherThanBGMAppNotification = False\<rparr>, s))"

definition StopIONonRT :: "BGM_Clients \<Rightarrow> UInt32 \<Rightarrow> (error + io_result) \<times> BGM_Clients" where
  "StopIONonRT s inClientID =
     (case GetClientNonRT (mClientMap s) inClientID of
        None \<Rightarrow> (Inl BGM_InvalidClientException, s)
      | Some theClient \<Rightarrow>
          if mDoingIO theClient then
            (let s1 = s\<lparr>mClientMap := ClientMap_StopIONonRT (mClientMap s) inClientID\<rparr>
             in if mStartCount s1 \<le> 0 then (Inl CAException_IllegalOperation, s1)
                else
                  (let s2 = s1\<lparr>mStartCount := mStartCount s1 - 1\<rparr>
                   in if \<not> IsBGMApp s2 inClientID then
                        if mStartCountExcludingBGMApp s2 \<le> 0
                        then (Inl CAException_IllegalOperation, s2)
                        else
                          (let s3 = s2\<lparr>mStartCountExcludingBGMApp := mStartCountExcludingBGMApp s2 - 1\<rparr>;
                               didStopIO = (mStartCount s3 = 0)
                           in (Inr \<lparr>returned = didStopIO,
                                    sendIsRunningNotification = didStopIO,
                                    sendIsRunningSomewhereOtherThanBGMAppNotification =
                                      (mStartCountExcludingBGMApp s3 = 0)\<rparr>, s3))
                      else
                        (let didStopIO = (mStartCount s2 = 0)
                         in (Inr \<lparr>returned = didStopIO,
                                  sendIsRunningNotification = didStopIO,
                                  sendIsRunningSomewhereOtherThanBGMAppNotification = False\<rparr>, s2))))
          else
            (Inr \<lparr>returned = False, sendIsRunningNotification = False,
                  sendIsRunningSomewhereOtherThanBGMAppNotification = False\<rparr>, s))"

text \<open>A sequence of start and stop calls; a call that throws leaves the engine as the throw
  found it, and the next call goes on from there.\<close>

datatype io_call = StartIO UInt32 | StopIO UInt32

fun io_step :: "BGM_Clients \<Rightarrow> io_call \<Rightarrow> BGM_Clients" where
  "io_step s (StartIO inClientID) = snd (StartIONonRT s inClientID)"
| "io_step s (StopIO inClientID) = snd (StopIONonRT s inClientID)"

definition io_run :: "BGM_Clients \<Rightarrow> io_call list \<Rightarrow> BGM_Clients" where
  "io_run s calls = foldl io_step s calls"

text \<open>The assertion both calls end with.\<close>

definition counts_in_sync :: "BGM_Clients \<Rightarrow> bool" where
  "counts_in_sync s =
     (mStartCountExcludingBGMApp s = mStartCount s - 1 \<or>
      mStartCountExcludingBGMApp s = mStartCount s)"

text \<open>The counters count: \<open>mStartCount\<close> the records doing IO, \<open>mStartCountExcludingBGMApp\<close>
  those of them that are not the control app; client ids are the keys of the map.\<close>

definition counts_exact :: "BGM_Clients \<Rightarrow> bool" where
  "counts_exact s =
     (distinct (map mClientID (mClientMap s)) \<and>
      unat (mStartCount s) = length (filter mDoingIO (mClientMap s)) \<and>
      unat (mStartCountExcludingBGMApp s) =
        length (filter (\<lambda>c. mDoingIO c \<and> \<not> IsBGMApp s (mClientID c)) (mClientMap s)))"

subsection \<open>Music player\<close>

definition SetMusicPlayer_PID :: "BGM_Clients \<Rightarrow> pid_t \<Rightarrow> (error + bool) \<times> BGM_Clients" where
  "SetMusicPlayer_PID s inPID =
     (if inPID <s 0 then (Inl BGM_InvalidClientPIDException, s)
      else if mMusicPlayerProcessIDProperty s = inPID then (Inr False, s)
      else
        (Inr True,
         s\<lparr>mMusicPlayerProcessIDProperty := inPID,
           mMusicPlayerBundleIDProperty := [],
           mClientMap := UpdateMusicPlayerFlags_PID (mClientMap s) inPID\<rparr>))"

text \<open>The overload for a bundle id, which the source asserts to be a valid string; it throws
  nothing.\<close>

definition SetMusicPlayer_BundleID :: "BGM_Clients \<Rightarrow> string \<Rightarrow> (error + bool) \<times> BGM_Clients" where
  "SetMusicPlayer_BundleID s inBundleID =
     (if mMusicPlayerBundleIDProperty s = inBundleID then (Inr False, s)
      else
        (Inr True,
         s\<lparr>mMusicPlayerBundleIDProperty := inBundleID,
           mMusicPlayerProcessIDProperty := 0,
           mClientMap := UpdateMusicPlayerFlags_BundleID (mClientMap s) inBundleID\<rparr>))"

datatype music_player_call = ByPID pid_t | ByBundleID string

fun music_player_step :: "BGM_Clients \<Rightarrow> music_player_call \<Rightarrow> BGM_Clients" where
  "music_player_step s (ByPID inPID) = snd (SetMusicPlayer_PID s inPID)"
| "music_player_step s (ByBundleID inBundleID) = snd (SetMusicPlayer_BundleID s inBundleID)"

definition music_player_run :: "BGM_Clients \<Rightarrow> music_player_call list \<Rightarrow> BGM_Clients" where
  "music_player_run s calls = foldl music_player_step s calls"

text \<open>Both designators are set at once: what must never hold.\<close>

definition both_designators_active :: "BGM_Clients \<Rightarrow> bool" where
  "both_designators_active s =
     (mMusicPlayerProcessIDProperty s \<noteq> 0 \<and> mMusicPlayerBundleIDProperty s \<noteq> [])"

subsection \<open>App volumes\<close>

text \<open>
  The constants of BGM\_Types.h that \<open>SetClientsRelativeVolumes\<close> uses, and its two float
  computations, are parameters of the model: the raw ranges, the "no value" marker of an EQ
  band (already cast to \<open>Float32\<close>), the volume curve followed by the multiplication by 4, and
  the conversion of tenths of a dB to dB.
\<close>

record BGM_Types =
  kAppRelativeVolumeMinRawValue :: SInt32
  kAppRelativeVolumeMaxRawValue :: SInt32
  kAppPanLeftRawValue :: SInt32
  kAppPanRightRawValue :: SInt32
  kAppEQGainMinRawValue :: SInt32
  kAppEQGainMaxRawValue :: SInt32
  kAppEQGainNoValue :: Float32
  ConvertRawToScalar_times_4 :: "SInt32 \<Rightarrow> Float32"
  tenths_to_dB :: "SInt32 \<Rightarrow> Float32"

text \<open>One dictionary of the request: each key is present with a value of its type or not.\<close>

record AppVolume =
  volProcessID :: "pid_t option"
  volBundleID :: "string option"
  volRelativeVolume :: "SInt32 option"
  volPanPosition :: "SInt32 option"
  volEQLowGain :: "SInt32 option"
  volEQMidGain :: "SInt32 option"
  volEQHighGain :: "SInt32 option"

text \<open>What a block of the loop body leaves: the exception it threw if any, whether it got its
  value (\<open>didGet...\<close>), whether it changed a client, and the client map.\<close>

type_synonym block_result = "error option \<times> bool \<times> bool \<times> BGM_ClientMap"

definition volume_block ::
  "BGM_Types \<Rightarrow> pid_t \<Rightarrow> string option \<Rightarrow> AppVolume \<Rightarrow> BGM_ClientMap \<Rightarrow> block_result" where
  "volume_block K theAppPID theAppBundleID e m =
     (case volRelativeVolume e of
        None \<Rightarrow> (None, False, False, m)
      | Some theRawRelativeVolume \<Rightarrow>
          if theRawRelativeVolume <s kAppRelativeVolumeMinRawValue K \<or>
             kAppRelativeVolumeMaxRawValue K <s theRawRelativeVolume
          then (Some BGM_InvalidClientRelativeVolumeException, True, False, m)
          else
            (let theRelativeVolume = ConvertRawToScalar_times_4 K theRawRelativeVolume;
                 r1 = SetClientsRelativeVolume_PID m theAppPID theRelativeVolume;
                 r2 = SetClientsRelativeVolume_BundleID (snd r1) theAppBundleID theRelativeVolume
             in (None, True, fst r1 \<or> fst r2, snd r2)))"

definition pan_block ::
  "BGM_Types \<Rightarrow> pid_t \<Rightarrow> string option \<Rightarrow> AppVolume \<Rightarrow> BGM_ClientMap \<Rightarrow> block_result" where
  "pan_block K theAppPID theAppBundleID e m =
     (case volPanPosition e of
        None \<Rightarrow> (None, False, False, m)
      | Some thePanPosition \<Rightarrow>
          if thePanPosition <s kAppPanLeftRawValue K \<or> kAppPanRightRawValue K <s thePanPosition
          then (Some BGM_InvalidClientPanPositionException, True, False, m)
          else
            (let r1 = SetClientsPanPosition_PID m theAppPID thePanPosition;
                 r2 = SetClientsPanPosition_BundleID (snd r1) theAppBundleID thePanPosition
             in (None, True, fst r1 \<or> fst r2, snd r2)))"

definition eq_out_of_range :: "BGM_Types \<Rightarrow> SInt32 option \<Rightarrow> bool" where
  "eq_out_of_range K v =
     (case v of None \<Rightarrow> False
      | Some x \<Rightarrow> x <s kAppEQGainMinRawValue K \<or> kAppEQGainMaxRawValue K <s x)"

definition eq_dB :: "BGM_Types \<Rightarrow> SInt32 option \<Rightarrow> Float32" where
  "eq_dB K v = (case v of None \<Rightarrow> kAppEQGainNoValue K | Some x \<Rightarrow> tenths_to_dB K x)"

text \<open>In the EQ block \<open>didGetEQ\<close> is set only where a setter reports a change.\<close>

definition eq_block ::
  "BGM_Types \<Rightarrow> pid_t \<Rightarrow> string option \<Rightarrow> AppVolume \<Rightarrow> BGM_ClientMap \<Rightarrow> block_result" where
  "eq_block K theAppPID theAppBundleID e m =
     (let hasLow = (volEQLowGain e \<noteq> None);
          hasMid = (volEQMidGain e \<noteq> None);
          hasHigh = (volEQHighGain e \<noteq> None)
      in if hasLow \<or> hasMid \<or> hasHigh then
           if eq_out_of_range K (volEQLowGain e)
           then (Some BGM_InvalidClientRelativeVolumeException, False, False, m)
           else if eq_out_of_range K (volEQMidGain e)
           then (Some BGM_InvalidClientRelativeVolumeException, False, False, m)
           else if eq_out_of_range K (volEQHighGain e)
           then (Some BGM_InvalidClientRelativeVolumeException, False, False, m)
           else
             (let lowDB = eq_dB K (volEQLowGain e);
                  midDB = eq_dB K (volEQMidGain e);
                  highDB = eq_dB K (volEQHighGain e);
                  r1 = SetClientsEQ_PID (kAppEQGainNoValue K) m theAppPID lowDB midDB highDB;
                  r2 = SetClientsEQ_BundleID (kAppEQGainNoValue K) (snd r1) theAppBundleID
                         lowDB midDB highDB
              in (None, fst r1 \<or> fst r2, fst r1 \<or> fst r2, snd r2))
         else (None, False, False, m))"

text \<open>
  The body of the loop for one dictionary. The local \<open>theAppPID\<close> is declared without an
  initialiser and \<open>GetSInt32\<close> writes it only when the dictionary has a process id; when
  it has none, the setters receive whatever the local held on entry to the body:
  \<open>uninitPID\<close>.
\<close>

definition set_app_volume ::
  "BGM_Types \<Rightarrow> pid_t \<Rightarrow> BGM_ClientMap \<Rightarrow> AppVolume \<Rightarrow> (error + bool) \<times> BGM_ClientMap" where
  "set_app_volume K uninitPID m e =
     (let theAppPID = (case volProcessID e of None \<Rightarrow> uninitPID | Some p \<Rightarrow> p);
          didFindPID = (volProcessID e \<noteq> None);
          theAppBundleID = volBundleID e
      in if \<not> didFindPID \<and> theAppBundleID = None
         then (Inl BGM_InvalidClientRelativeVolumeException, m)
         else
           (case volume_block K theAppPID theAppBundleID e m of
              (Some ex, _, _, m1) \<Rightarrow> (Inl ex, m1)
            | (None, didGetVolume, changed1, m1) \<Rightarrow>
                (case pan_block K theAppPID theAppBundleID e m1 of
                   (Some ex, _, _, m2) \<Rightarrow> (Inl ex, m2)
                 | (None, didGetPanPosition, changed2, m2) \<Rightarrow>
                     (case eq_block K theAppPID theAppBundleID e m2 of
                        (Some ex, _, _, m3) \<Rightarrow> (Inl ex, m3)
                      | (None, didGetEQ, changed3, m3) \<Rightarrow>
                          if \<not> didGetVolume \<and> \<not> didGetPanPosition \<and> \<not> didGetEQ
                          then (Inl BGM_InvalidClientRelativeVolumeException, m3)
                          else (Inr (changed1 \<or> changed2 \<or> changed3), m3)))))"

text \<open>
  The loop. The local of one iteration and of the next is the same slot of the frame, so
  what an iteration finds in it is what the iteration before left there: the process id of
  the last dictionary that had one, and before any such dictionary the value \<open>uninitPID\<close>
  the slot held when the function was entered.
\<close>

definition theAppPID_after :: "pid_t \<Rightarrow> AppVolume \<Rightarrow> pid_t" where
  "theAppPID_after uninitPID e = (case volProcessID e of None \<Rightarrow> uninitPID | Some p \<Rightarrow> p)"

fun set_app_volumes ::
  "BGM_Types \<Rightarrow> pid_t \<Rightarrow> bool \<Rightarrow> BGM_ClientMap \<Rightarrow> AppVolume list \<Rightarrow> (error + bool) \<times> BGM_ClientMap" where
  "set_app_volumes K uninitPID didChangeAppVolumes m [] = (Inr didChangeAppVolumes, m)"
| "set_app_volumes K uninitPID didChangeAppVolumes m (e # es) =
     (case set_app_volume K uninitPID m e of
        (Inl ex, m') \<Rightarrow> (Inl ex, m')
      | (Inr changed, m') \<Rightarrow>
          set_app_volumes K (theAppPID_after uninitPID e) (didChangeAppVolumes \<or> changed) m' es)"

definition SetClientsRelativeVolumes ::
  "BGM_Types \<Rightarrow> pid_t \<Rightarrow> BGM_Clients \<Rightarrow> AppVolume list \<Rightarrow> (error + bool) \<times> BGM_Clients" where
  "SetClientsRelativeVolumes K uninitPID s inAppVolumes =
     (let r = set_app_volumes K uninitPID False (mClientMap s) inAppVolumes
      in (fst r, s\<lparr>mClientMap := snd r\<rparr>))"

text \<open>The three controls of every client, in map order.\<close>

definition relative_volumes :: "BGM_ClientMap \<Rightarrow> Float32 list" where
  "relative_volumes m = map mRelativeVolume m"

definition pan_positions :: "BGM_ClientMap \<Rightarrow> SInt32 list" where
  "pan_positions m = map mPanPosition m"

definition eq_gains :: "BGM_ClientMap \<Rightarrow> (Float32 \<times> Float32 \<times> Float32) list" where
  "eq_gains m = map (\<lambda>c. (mEQLowGain c, mEQMidGain c, mEQHighGain c)) m"

text \<open>The ways in which the spec calls an entry invalid.\<close>

definition entry_has_no_id :: "AppVolume \<Rightarrow> bool" where
  "entry_has_no_id e = (volProcessID e = None \<and> volBundleID e = None)"

definition volume_out_of_range :: "BGM_Types \<Rightarrow> AppVolume \<Rightarrow> bool" where
  "volume_out_of_range K e =
     (case volRelativeVolume e of None \<Rightarrow> False
      | Some v \<Rightarrow> v <s kAppRelativeVolumeMinRawValue K \<or> kAppRelativeVolumeMaxRawValue K <s v)"

definition pan_out_of_range :: "BGM_Types \<Rightarrow> AppVolume \<Rightarrow> bool" where
  "pan_out_of_range K e =
     (case volPanPosition e of None \<Rightarrow> False
      | Some p \<Rightarrow> p <s kAppPanLeftRawValue K \<or> kAppPanRightRawValue K <s p)"

definition eq_gain_out_of_range :: "BGM_Types \<Rightarrow> AppVolume \<Rightarrow> bool" where
  "eq_gain_out_of_range K e =
     (eq_out_of_range K (volEQLowGain e) \<or> eq_out_of_range K (volEQMidGain e) \<or>
      eq_out_of_range K (volEQHighGain e))"

definition entry_has_no_control :: "AppVolume \<Rightarrow> bool" where
  "entry_has_no_control e =
     (volRelativeVolume e = None \<and> volPanPosition e = None \<and> volEQLowGain e = None \<and>
      volEQMidGain e = None \<and> volEQHighGain e = None)"

definition entry_invalid :: "BGM_Types \<Rightarrow> AppVolume \<Rightarrow> bool" where
  "entry_invalid K e =
     (entry_has_no_id e \<or> volume_out_of_range K e \<or> pan_out_of_range K e \<or>
      eq_gain_out_of_range K e \<or> entry_has_no_control e)"

text \<open>
  Constants for the scenarios: raw volume 0 to 100, pan -100 to 100, EQ gain -120 to 120 (the
  spec's range). The scenarios below hand over no volume and no EQ value in range, so that
  neither float computation is called in them; they are constant functions here.
\<close>

definition scenario_BGM_Types :: BGM_Types where
  "scenario_BGM_Types =
     \<lparr>kAppRelativeVolumeMinRawValue = 0, kAppRelativeVolumeMaxRawValue = 100,
      kAppPanLeftRawValue = - 100, kAppPanRightRawValue = 100,
      kAppEQGainMinRawValue = - 120, kAppEQGainMaxRawValue = 120,
      kAppEQGainNoValue = F32 0xFF800000,
      ConvertRawToScalar_times_4 = (\<lambda>raw. f32_one),
      tenths_to_dB = (\<lambda>tenths. f32_zero)\<rparr>"

text \<open>A request entry for process 100 with pan 50, in range, and a low EQ gain of 500 tenths
  of a dB, out of range.\<close>

definition pan_then_bad_eq :: AppVolume where
  "pan_then_bad_eq =
     \<lparr>volProcessID = Some 100, volBundleID = None, volRelativeVolume = None,
      volPanPosition = Some 50, volEQLowGain = Some 500, volEQMidGain = None,
      volEQHighGain = None\<rparr>"

text \<open>A request entry with a pan position and no other control.\<close>

definition pan_request :: "pid_t option \<Rightarrow> string option \<Rightarrow> SInt32 \<Rightarrow> AppVolume" where
  "pan_request pid bundle pan =
     \<lparr>volProcessID = pid, volBundleID = bundle, volRelativeVolume = None,
      volPanPosition = Some pan, volEQLowGain = None, volEQMidGain = None,
      volEQHighGain = None\<rparr>"

subsection \<open>App routing\<close>

definition route_matches :: "pid_t \<Rightarrow> pid_t \<Rightarrow> BGM_AudioRoute \<Rightarrow> bool" where
  "route_matches inSourcePID inDestPID route =
     (mSourcePID route = inSourcePID \<and> mDestPID route = inDestPID)"

text \<open>The search loop of \<open>SetRoute\<close>: the first route of the pair is overwritten and the loop
  returns whether it changed; \<open>None\<close> when the loop ends without a match.\<close>

fun update_existing_route ::
  "pid_t \<Rightarrow> pid_t \<Rightarrow> Float32 \<Rightarrow> bool \<Rightarrow> BGM_AudioRoute list \<Rightarrow> (bool \<times> BGM_AudioRoute list) option" where
  "update_existing_route inSourcePID inDestPID inGain inEnabled [] = None"
| "update_existing_route inSourcePID inDestPID inGain inEnabled (route # routes) =
     (if route_matches inSourcePID inDestPID route
      then Some (f32_ne (mGain route) inGain \<or> mEnabled route \<noteq> inEnabled,
                 route\<lparr>mGain := inGain, mEnabled := inEnabled\<rparr> # routes)
      else (case update_existing_route inSourcePID inDestPID inGain inEnabled routes of
              None \<Rightarrow> None
            | Some r \<Rightarrow> Some (fst r, route # snd r)))"

definition SetRoute :: "BGM_Clients \<Rightarrow> pid_t \<Rightarrow> pid_t \<Rightarrow> Float32 \<Rightarrow> bool \<Rightarrow> bool \<times> BGM_Clients" where
  "SetRoute s inSourcePID inDestPID inGain inEnabled =
     (case update_existing_route inSourcePID inDestPID inGain inEnabled (mRoutes s) of
        Some r \<Rightarrow> (fst r, s\<lparr>mRoutes := snd r\<rparr>)
      | None \<Rightarrow>
          if inEnabled then
            (let newRoute = \<lparr>mSourcePID = inSourcePID, mDestPID = inDestPID,
                             mGain = inGain, mEnabled = inEnabled\<rparr>
             in (True, s\<lparr>mRoutes := mRoutes s @ [newRoute],
                         mClientMap := AllocateRoutingBufferForPID (mClientMap s) inSourcePID\<rparr>))
          else (False, s))"

text \<open>An element of the array handed to \<open>SetRoutesFromArray\<close>: \<open>None\<close> when it is not a
  dictionary, else the keys that are present with a value of their type.\<close>

record RouteEntry =
  entrySourcePID :: "pid_t option"
  entryDestPID :: "pid_t option"
  entryGain :: "Float32 option"
  entryEnabled :: "bool option"

text \<open>The inner loop of \<open>SetRoutesFromArray\<close>: the first route of the pair is written only
  when it differs; \<open>None\<close> when no route matches (\<open>found\<close> stays false).\<close>

fun batch_update_existing_route ::
  "pid_t \<Rightarrow> pid_t \<Rightarrow> Float32 \<Rightarrow> bool \<Rightarrow> BGM_AudioRoute list \<Rightarrow> (bool \<times> BGM_AudioRoute list) option" where
  "batch_update_existing_route sourcePID destPID gain enabled [] = None"
| "batch_update_existing_route sourcePID destPID gain enabled (existingRoute # routes) =
     (if route_matches sourcePID destPID existingRoute
      then (if f32_ne (mGain existingRoute) gain \<or> mEnabled existingRoute \<noteq> enabled
            then Some (True, existingRoute\<lparr>mGain := gain, mEnabled := enabled\<rparr> # routes)
            else Some (False, existingRoute # routes))
      else (case batch_update_existing_route sourcePID destPID gain enabled routes of
              None \<Rightarrow> None
            | Some r \<Rightarrow> Some (fst r, existingRoute # snd r)))"

text \<open>\<open>Float32 gain = 1.0f\<close> and \<open>bool enabled = true\<close>, overwritten when the key is there.\<close>

definition entry_gain :: "RouteEntry \<Rightarrow> Float32" where
  "entry_gain e = (case entryGain e of None \<Rightarrow> f32_one | Some g \<Rightarrow> g)"

definition entry_enabled :: "RouteEntry \<Rightarrow> bool" where
  "entry_enabled e = (case entryEnabled e of None \<Rightarrow> True | Some b \<Rightarrow> b)"

text \<open>The part of the loop body after the entry has been read.\<close>

definition set_route_in_batch ::
  "bool \<times> BGM_Clients \<Rightarrow> pid_t \<Rightarrow> pid_t \<Rightarrow> Float32 \<Rightarrow> bool \<Rightarrow> bool \<times> BGM_Clients" where
  "set_route_in_batch st sourcePID destPID gain enabled =
     (case batch_update_existing_route sourcePID destPID gain enabled (mRoutes (snd st)) of
        Some r \<Rightarrow> (fst st \<or> fst r, (snd st)\<lparr>mRoutes := snd r\<rparr>)
      | None \<Rightarrow>
          if enabled then
            (True,
             (snd st)\<lparr>mRoutes := mRoutes (snd st) @
                        [\<lparr>mSourcePID = sourcePID, mDestPID = destPID,
                          mGain = gain, mEnabled = enabled\<rparr>],
                      mClientMap := AllocateRoutingBufferForPID (mClientMap (snd st)) sourcePID\<rparr>)
          else st)"

definition set_route_from_entry :: "bool \<times> BGM_Clients \<Rightarrow> RouteEntry option \<Rightarrow> bool \<times> BGM_Clients" where
  "set_route_from_entry st theRoute =
     (case theRoute of
        None \<Rightarrow> st
      | Some e \<Rightarrow>
          (case entrySourcePID e of
             None \<Rightarrow> st
           | Some sourcePID \<Rightarrow>
               (case entryDestPID e of
                  None \<Rightarrow> st
                | Some destPID \<Rightarrow>
                    set_route_in_batch st sourcePID destPID (entry_gain e) (entry_enabled e))))"

definition SetRoutesFromArray :: "BGM_Clients \<Rightarrow> RouteEntry option list \<Rightarrow> bool \<times> BGM_Clients" where
  "SetRoutesFromArray s inRoutes = foldl set_route_from_entry (False, s) inRoutes"

text \<open>
  The batch as the spec words it: the single-edge \<open>SetRoute\<close> applied entry by entry, with
  gain 1.0 and enabled true by default, entries without a source or destination PID skipped,
  and the result true when some call reported a change.
\<close>

definition set_route_by_SetRoute :: "bool \<times> BGM_Clients \<Rightarrow> RouteEntry option \<Rightarrow> bool \<times> BGM_Clients" where
  "set_route_by_SetRoute st theRoute =
     (case theRoute of
        None \<Rightarrow> st
      | Some e \<Rightarrow>
          (case entrySourcePID e of
             None \<Rightarrow> st
           | Some sourcePID \<Rightarrow>
               (case entryDestPID e of
                  None \<Rightarrow> st
                | Some destPID \<Rightarrow>
                    (fst st \<or> fst (SetRoute (snd st) sourcePID destPID (entry_gain e) (entry_enabled e)),
                     snd (SetRoute (snd st) sourcePID destPID (entry_gain e) (entry_enabled e))))))"

definition SetRoutes_by_SetRoute :: "BGM_Clients \<Rightarrow> RouteEntry option list \<Rightarrow> bool \<times> BGM_Clients" where
  "SetRoutes_by_SetRoute s inRoutes = foldl set_route_by_SetRoute (False, s) inRoutes"





subsection \<open>Mixing routed audio\<close>

text \<open>
  One iteration of the frame loop of \<open>MixRoutedAudioRT\<close> for a route whose source client was
  found. The float operations \<open>+\<close> and \<open>*\<close> are the parameters \<open>f32_add\<close> and \<open>f32_mul\<close>;
  \<open>inNumFrames - frame\<close> and the indices \<open>frame * 2\<close>, \<open>frame * 2 + 1\<close> are computed in
  \<open>UInt32\<close>.
\<close>

definition mix_frame ::
  "(Float32 \<Rightarrow> Float32 \<Rightarrow> Float32) \<Rightarrow> (Float32 \<Rightarrow> Float32 \<Rightarrow> Float32) \<Rightarrow>
   BGM_Client \<Rightarrow> Float32 \<Rightarrow> UInt32 \<Rightarrow> Float32 list \<Rightarrow> nat \<Rightarrow> Float32 list" where
  "mix_frame f32_add f32_mul sourceClient gain inNumFrames ioBuffer frame =
     (let f = (word_of_nat frame :: UInt32);
          sampleOffset = (ucast (inNumFrames - f) :: UInt64);
          leftSample = FetchFromRoutingBuffer sourceClient 0 sampleOffset;
          rightSample = FetchFromRoutingBuffer sourceClient 1 sampleOffset;
          io1 = ioBuffer[unat (f * 2) := f32_add (ioBuffer ! unat (f * 2)) (f32_mul leftSample gain)];
          io2 = io1[unat (f * 2 + 1) := f32_add (io1 ! unat (f * 2 + 1)) (f32_mul rightSample gain)]
      in io2)"

definition mix_route ::
  "(Float32 \<Rightarrow> Float32 \<Rightarrow> Float32) \<Rightarrow> (Float32 \<Rightarrow> Float32 \<Rightarrow> Float32) \<Rightarrow>
   BGM_ClientMap \<Rightarrow> pid_t \<Rightarrow> UInt32 \<Rightarrow> Float32 list \<Rightarrow> BGM_AudioRoute \<Rightarrow> Float32 list" where
  "mix_route f32_add f32_mul m destPID inNumFrames ioBuffer route =
     (if \<not> mEnabled route \<or> mDestPID route \<noteq> destPID then ioBuffer
      else
        (case GetClientByPIDRT m (mSourcePID route) of
           None \<Rightarrow> ioBuffer
         | Some sourceClient \<Rightarrow>
             foldl (mix_frame f32_add f32_mul sourceClient (mGain route) inNumFrames) ioBuffer
               [0 ..< unat inNumFrames]))"

definition MixRoutedAudioRT ::
  "(Float32 \<Rightarrow> Float32 \<Rightarrow> Float32) \<Rightarrow> (Float32 \<Rightarrow> Float32 \<Rightarrow> Float32) \<Rightarrow>
   BGM_Clients \<Rightarrow> UInt32 \<Rightarrow> Float32 list \<Rightarrow> UInt32 \<Rightarrow> Float32 list" where
  "MixRoutedAudioRT f32_add f32_mul s inClientID ioBuffer inNumFrames =
     (case GetClientPtrRT (mClientMap s) inClientID of
        None \<Rightarrow> ioBuffer
      | Some destClient \<Rightarrow>
          foldl (mix_route f32_add f32_mul (mClientMap s) (mProcessID destClient) inNumFrames)
            ioBuffer (mRoutes s))"

text \<open>
  The mix as the spec words it, sample by sample: a route contributes to a destination when it
  is enabled, targets the destination's process and its source process has a client; its
  contribution to channel \<open>ch\<close> of output frame \<open>i\<close> is the gain times the source's ring
  sample of that channel at offset \<open>num_frames - i\<close>, added to what is there.
\<close>

definition route_contributes :: "BGM_ClientMap \<Rightarrow> pid_t \<Rightarrow> BGM_AudioRoute \<Rightarrow> bool" where
  "route_contributes m destPID route =
     (mEnabled route \<and> mDestPID route = destPID \<and> GetClientByPIDRT m (mSourcePID route) \<noteq> None)"

definition add_contribution ::
  "(Float32 \<Rightarrow> Float32 \<Rightarrow> Float32) \<Rightarrow> (Float32 \<Rightarrow> Float32 \<Rightarrow> Float32) \<Rightarrow>
   BGM_ClientMap \<Rightarrow> SInt32 \<Rightarrow> nat \<Rightarrow> Float32 \<Rightarrow> BGM_AudioRoute \<Rightarrow> Float32" where
  "add_contribution f32_add f32_mul m ch sample_offset acc route =
     (case GetClientByPIDRT m (mSourcePID route) of
        None \<Rightarrow> acc
      | Some sourceClient \<Rightarrow>
          f32_add acc
            (f32_mul (FetchFromRoutingBuffer sourceClient ch (word_of_nat sample_offset))
               (mGain route)))"

definition mixed_sample ::
  "(Float32 \<Rightarrow> Float32 \<Rightarrow> Float32) \<Rightarrow> (Float32 \<Rightarrow> Float32 \<Rightarrow> Float32) \<Rightarrow>
   BGM_ClientMap \<Rightarrow> pid_t \<Rightarrow> BGM_AudioRoute list \<Rightarrow> SInt32 \<Rightarrow> nat \<Rightarrow> Float32 \<Rightarrow> Float32" where
  "mixed_sample f32_add f32_mul m destPID routes ch sample_offset x =
     foldl (add_contribution f32_add f32_mul m ch sample_offset) x
       (filter (route_contributes m destPID) routes)"

subsection \<open>The scenarios of the spec\<close>

text \<open>
  The clients of the spec's scenarios S1 and S2: A (process 100) and B (process 101), and C,
  whose bundle id is the control app's. The control app's bundle id is the parameter of
  \<open>AddClient\<close>.
\<close>

definition control_app_bundle_id :: string where
  "control_app_bundle_id = ''com.bearisdriving.BGM.App''"

definition client_A :: BGM_Client where
  "client_A = new_BGM_Client 1 100 True (Some ''com.example.A'')"

definition client_B :: BGM_Client where
  "client_B = new_BGM_Client 2 101 True None"

definition client_C :: BGM_Client where
  "client_C = new_BGM_Client 3 102 True (Some control_app_bundle_id)"

definition engine_ABC :: BGM_Clients where
  "engine_ABC =
     AddClient control_app_bundle_id
       (AddClient control_app_bundle_id
          (AddClient control_app_bundle_id new_BGM_Clients client_A) client_B) client_C"

text \<open>
  A routing scenario after the spec's S3: client A, of process 100, has stored the two stereo
  frames (10, 11) and (20, 21) in its ring; the graph routes process 100 into process 101
  (client B) with gain 0.5, and holds three routes that must not be heard by B: one into
  another process, one disabled, and one from a process that has no client.
\<close>

definition f32_half :: Float32 where
  "f32_half = F32 0x3F000000"

definition client_A_stored :: BGM_Client where
  "client_A_stored =
     store_calls (\<lambda>t n. t) (AllocateRoutingBuffer client_A)
       [([F32 10, F32 11, F32 20, F32 21], 2, F64 0)]"

text \<open>
  Client A after 8190 frames have gone through its ring since allocation: the next frames
  stored run over the end of the storage.
\<close>

definition client_A_wrapping :: BGM_Client where
  "client_A_wrapping =
     store_calls (\<lambda>t n. t) (AllocateRoutingBuffer client_A)
       [(replicate 16380 (F32 7), 8190, F64 0)]"

definition engine_routing :: BGM_Clients where
  "engine_routing =
     engine_ABC
       \<lparr>mClientMap := [client_A_stored, client_B, client_C],
        mRoutes :=
          [\<lparr>mSourcePID = 100, mDestPID = 102, mGain = f32_one, mEnabled = True\<rparr>,
           \<lparr>mSourcePID = 100, mDestPID = 101, mGain = f32_half, mEnabled = True\<rparr>,
           \<lparr>mSourcePID = 102, mDestPID = 101, mGain = f32_one, mEnabled = False\<rparr>,
           \<lparr>mSourcePID = 999, mDestPID = 101, mGain = f32_one, mEnabled = True\<rparr>]\<rparr>"

text \<open>The quiet NaN and the negative zero of binary32.\<close>

definition f32_nan :: Float32 where
  "f32_nan = F32 0x7FC00000"

definition f32_minus_zero :: Float32 where
  "f32_minus_zero = F32 0x80000000"

section \<open>The scenario engine\<close>

lemmas scenario_defs = engine_ABC_def client_A_def client_B_def client_C_def new_BGM_Client_def
  new_BGM_Clients_def AddClient_def ClientMap_AddClient_def control_app_bundle_id_def Let_def

lemma engine_ABC_fields:
  "mClientMap engine_ABC = [client_A, client_B, client_C\<lparr>mIsMusicPlayer := False\<rparr>]"
  "mBGMAppClientID engine_ABC = 3"
  "mStartCount engine_ABC = 0"
  "mStartCountExcludingBGMApp engine_ABC = 0"
  by (simp_all add: scenario_defs)

lemma client_ids: "mClientID client_A = 1" "mClientID client_B = 2" "mClientID client_C = 3"
  "\<not> mDoingIO client_A" "\<not> mDoingIO client_B" "\<not> mDoingIO client_C"
  by (simp_all add: scenario_defs)

section \<open>Routing ring buffer: proofs\<close>

lemma unat_bufferOffset: "unat (bufferOffset pos) = (unat pos mod kRoutingBufferFrames) * 2"
proof -
  have lt: "unat pos mod 8192 < 8192"
    by simp
  have a: "unat ((pos mod 8192) * 2) = (unat pos mod 8192) * 2"
    using lt by (simp add: unat_word_ariths unat_mod)
  have "unat (ucast ((pos mod 8192) * 2 :: UInt64) :: UInt32) = unat ((pos mod 8192) * 2) mod 2 ^ 32"
    by (simp add: unsigned_ucast_eq take_bit_eq_mod)
  also have "\<dots> = (unat pos mod 8192) * 2"
    using lt by (simp only: a) simp
  finally show ?thesis
    by (simp add: bufferOffset_def kRoutingBufferFrames_def kRoutingBufferChannels_def)
qed

lemma channel_out_of_range:
  "(sint (ch :: SInt32) < 0 \<or> sint ch \<ge> int kRoutingBufferChannels) = (ch \<noteq> 0 \<and> ch \<noteq> 1)"
proof -
  have r: "ch = word_of_int (sint ch)"
    by simp
  have "sint ch = 0 \<or> sint ch = 1 \<Longrightarrow> ch = 0 \<or> ch = 1"
    using r by (metis word_of_int_0 word_of_int_1)
  moreover have "ch = 0 \<or> ch = 1 \<Longrightarrow> sint ch = 0 \<or> sint ch = 1"
    by auto
  ultimately show ?thesis
    unfolding kRoutingBufferChannels_def by fastforce
qed

lemma slot_distinct:
  assumes "p < k" "k < n"
  shows "(a + p) mod n \<noteq> (a + k) mod (n :: nat)"
proof
  assume eq: "(a + p) mod n = (a + k) mod n"
  have "n dvd (a + k) - (a + p)"
    using assms(1) eq mod_eq_dvd_iff_nat [of "a + p" "a + k" n] by simp
  then have "n dvd k - p"
    by simp
  then have "n \<le> k - p"
    using assms(1) by (intro dvd_imp_le) simp_all
  then show False
    using assms(2) by simp
qed

lemma index_distinct:
  "a \<noteq> q \<Longrightarrow> r < 2 \<Longrightarrow> a * 2 + r \<noteq> 2 * q \<and> a * 2 + r \<noteq> Suc (2 * (q :: nat))"
  by presburger

lemma store_frame_holds:
  assumes "ring_holds base buf w h" "length h + 2 \<le> kRoutingBufferFrames * kRoutingBufferChannels"
    and "2 * j + 1 < length b" "j < kRoutingBufferFrames" "base + length h div 2 + 1 < 2 ^ 64"
  shows "ring_holds base (fst (store_frame b (buf, w) j)) (snd (store_frame b (buf, w) j))
           (h @ [b ! (2 * j), b ! (2 * j + 1)])"
proof -
  have N: "kRoutingBufferFrames = 8192" "kRoutingBufferChannels = 2"
    by (simp_all add: kRoutingBufferFrames_def kRoutingBufferChannels_def)
  define k where "k = unat w - base"
  define q where "q = unat w mod 8192"
  from assms(1) have len: "length buf = 16384" and bw: "base \<le> unat w" and lh: "length h = 2 * k"
    by (auto simp: ring_holds_def N k_def)
  from assms(1) have inv:
    "\<And>i. i < length h \<Longrightarrow> buf ! (((base + i div 2) mod 8192) * 2 + i mod 2) = h ! i"
    by (simp add: ring_holds_def N)
  have k: "k < 8192"
    using assms(2) lh by (simp add: N)
  have wq: "unat w = base + k"
    using bw by (simp add: k_def)
  have q: "q < 8192" "q = (base + k) mod 8192"
    by (simp_all add: q_def wq)
  have off: "unat (bufferOffset w) = 2 * q"
    by (simp add: unat_bufferOffset N q_def)
  have off1: "unat (bufferOffset w + 1) = Suc (2 * q)"
    using off q(1) by (simp add: unat_word_ariths)
  have "unat w + 1 < 2 ^ 64"
    using assms(5) wq lh by simp
  then have w1: "unat (w + 1) = Suc (unat w)"
    by (simp add: unat_word_ariths)
  have j0: "unat ((word_of_nat j :: UInt32) * 2) = 2 * j"
    using assms(4) by (simp add: unat_word_ariths N unat_of_nat)
  have j1: "unat ((word_of_nat j :: UInt32) * 2 + 1) = 2 * j + 1"
    using assms(4) by (simp add: unat_word_ariths N unat_of_nat)
  define x where "x = b ! (2 * j)"
  define y where "y = b ! (2 * j + 1)"
  define buf' where "buf' = buf[2 * q := x, Suc (2 * q) := y]"
  have sf: "store_frame b (buf, w) j = (buf', w + 1)"
    by (simp add: store_frame_def Let_def off off1 j0 j1 buf'_def x_def y_def)
  have new: "buf' ! (((base + i div 2) mod 8192) * 2 + i mod 2) = (h @ [x, y]) ! i"
    if i: "i < 2 * k + 2" for i
  proof (cases "i < 2 * k")
    case True
    then have p: "i div 2 < k"
      by simp
    have "(base + i div 2) mod 8192 \<noteq> q"
      using slot_distinct [OF p k, of base] q(2) by simp
    moreover have "i mod 2 < 2"
      by simp
    ultimately have "((base + i div 2) mod 8192) * 2 + i mod 2 \<noteq> 2 * q \<and>
        ((base + i div 2) mod 8192) * 2 + i mod 2 \<noteq> Suc (2 * q)"
      by (rule index_distinct)
    then have "buf' ! (((base + i div 2) mod 8192) * 2 + i mod 2)
        = buf ! (((base + i div 2) mod 8192) * 2 + i mod 2)"
      by (simp add: buf'_def)
    then show ?thesis
      using inv [of i] True lh by (simp add: nth_append)
  next
    case False
    then consider "i = 2 * k" | "i = Suc (2 * k)"
      using i by linarith
    then show ?thesis
    proof cases
      case 1
      have "buf' ! (2 * q) = x"
        using q(1) len by (simp add: buf'_def)
      then show ?thesis
        using 1 lh q(2) by (simp add: nth_append mult.commute)
    next
      case 2
      have "buf' ! Suc (2 * q) = y"
        using q(1) len by (simp add: buf'_def)
      moreover have "Suc (2 * k) div 2 = k" "Suc (2 * k) mod 2 = 1"
        by simp_all
      ultimately show ?thesis
        using 2 lh q(2) by (simp add: nth_append mult.commute)
    qed
  qed
  have "ring_holds base buf' (w + 1) (h @ [x, y])"
    using len bw lh k w1 wq new by (simp add: ring_holds_def N buf'_def)
  then show ?thesis
    by (simp add: sf x_def y_def)
qed

lemma ring_holds_pos: "ring_holds base buf w h \<Longrightarrow> unat w = base + length h div 2"
  by (simp add: ring_holds_def)

lemma store_loop_holds:
  assumes "ring_holds base buf w h"
  shows "length h + 2 * n \<le> kRoutingBufferFrames * kRoutingBufferChannels \<Longrightarrow> 2 * n \<le> length b \<Longrightarrow>
    base + length h div 2 + n < 2 ^ 64 \<Longrightarrow>
    ring_holds base (fst (foldl (store_frame b) (buf, w) [0 ..< n]))
               (snd (foldl (store_frame b) (buf, w) [0 ..< n])) (h @ take (2 * n) b)"
proof (induction n)
  case 0
  with assms show ?case by simp
next
  case (Suc n)
  let ?r = "foldl (store_frame b) (buf, w) [0 ..< n]"
  have ih: "ring_holds base (fst ?r) (snd ?r) (h @ take (2 * n) b)"
    using Suc by simp
  have n: "n < kRoutingBufferFrames"
    using Suc.prems by (simp add: kRoutingBufferChannels_def)
  have ev: "even (length h)"
    using assms by (simp add: ring_holds_def)
  have l: "length (h @ take (2 * n) b) div 2 = length h div 2 + n"
    using Suc.prems(2) ev by (simp add: min_def)
  have "ring_holds base (fst (store_frame b (fst ?r, snd ?r) n)) (snd (store_frame b (fst ?r, snd ?r) n))
      ((h @ take (2 * n) b) @ [b ! (2 * n), b ! (2 * n + 1)])"
    using Suc.prems n l by (intro store_frame_holds [OF ih]) simp_all
  moreover have "take (2 * Suc n) b = take (2 * n) b @ [b ! (2 * n), b ! (2 * n + 1)]"
    using Suc.prems by (simp add: take_Suc_conv_app_nth)
  ultimately show ?case
    by simp
qed

lemma Allocate_holds:
  "\<not> mRoutingBufferAllocated c0 \<Longrightarrow> mRoutingBuffer c0 = None \<Longrightarrow>
   client_ring_holds 0 (AllocateRoutingBuffer c0) []"
  by (simp add: AllocateRoutingBuffer_def client_ring_holds_def ring_holds_def)

lemma AllocateRoutingBuffer_allocated:
  "\<not> mRoutingBufferAllocated c \<Longrightarrow> mRoutingBuffer c = None \<Longrightarrow>
   routing_buffer_allocated (AllocateRoutingBuffer c) \<and>
   mRoutingBufferWritePos (AllocateRoutingBuffer c) = 0"
  by (simp add: AllocateRoutingBuffer_def routing_buffer_allocated_def)

lemma store_loop_length:
  "length (fst (foldl (store_frame b) st ns)) = length (fst st)"
  by (induction ns arbitrary: st) (simp_all add: store_frame_def Let_def)

lemma Store_keeps_allocated:
  "routing_buffer_allocated c \<Longrightarrow> routing_buffer_allocated (StoreToRoutingBuffer f c b n t)"
  by (auto simp: routing_buffer_allocated_def StoreToRoutingBuffer_def Let_def store_loop_length
      split: option.splits)

lemma allocated_holds:
  "routing_buffer_allocated c \<Longrightarrow> client_ring_holds (unat (mRoutingBufferWritePos c)) c []"
  by (auto simp: routing_buffer_allocated_def client_ring_holds_def ring_holds_def
      split: option.splits)

lemma holds_allocated:
  "client_ring_holds base c h \<Longrightarrow>
   routing_buffer_allocated c \<and> unat (mRoutingBufferWritePos c) = base + length h div 2"
  by (auto simp: routing_buffer_allocated_def client_ring_holds_def ring_holds_def
      split: option.splits)

lemma Store_holds:
  assumes "client_ring_holds base c h" "length b = 2 * unat n"
    and "length h + length b \<le> kRoutingBufferFrames * kRoutingBufferChannels"
    and "base + (length h + length b) div 2 < 2 ^ 64"
  shows "client_ring_holds base (StoreToRoutingBuffer f c b n t) (h @ b)"
proof -
  from assms(1) obtain buf where buf: "mRoutingBuffer c = Some buf" "mRoutingBufferAllocated c"
    "ring_holds base buf (mRoutingBufferWritePos c) h"
    by (auto simp: client_ring_holds_def split: option.splits)
  let ?r = "foldl (store_frame b) (buf, mRoutingBufferWritePos c) [0 ..< unat n]"
  have ev: "even (length h)"
    using buf(3) by (simp add: ring_holds_def)
  have "(length h + 2 * unat n) div 2 = length h div 2 + unat n"
    using ev by presburger
  then have "base + length h div 2 + unat n < 2 ^ 64"
    using assms(2,4) by simp
  then have "ring_holds base (fst ?r) (snd ?r) (h @ take (2 * unat n) b)"
    using assms(2,3) by (intro store_loop_holds [OF buf(3)]) simp_all
  then show ?thesis
    using buf(1,2) assms(2)
    by (simp add: StoreToRoutingBuffer_def client_ring_holds_def Let_def)
qed

lemma store_calls_holds:
  "client_ring_holds base c h \<Longrightarrow>
   \<forall>call \<in> set calls. length (fst call) = 2 * unat (fst (snd call)) \<Longrightarrow>
   length h + length (concat (map fst calls)) \<le> kRoutingBufferFrames * kRoutingBufferChannels \<Longrightarrow>
   base + (length h + length (concat (map fst calls))) div 2 < 2 ^ 64 \<Longrightarrow>
   client_ring_holds base (store_calls f c calls) (h @ concat (map fst calls))"
proof (induction calls arbitrary: c h)
  case Nil
  then show ?case by (simp add: store_calls_def)
next
  case (Cons call calls)
  let ?c = "StoreToRoutingBuffer f c (fst call) (fst (snd call)) (snd (snd call))"
  have ev: "even (length h)" "even (length (fst call))"
    using Cons.prems(1,2) by (auto simp: client_ring_holds_def ring_holds_def split: option.splits)
  have "(length h + length (fst call)) div 2
      \<le> (length h + length (concat (map fst (call # calls)))) div 2"
    by (intro div_le_mono) simp
  then have "base + (length h + length (fst call)) div 2 < 2 ^ 64"
    using Cons.prems(4) by linarith
  then have "client_ring_holds base ?c (h @ fst call)"
    using Cons.prems by (intro Store_holds) simp_all
  then have "client_ring_holds base (store_calls f ?c calls) ((h @ fst call) @ concat (map fst calls))"
    using Cons.prems by (intro Cons.IH) (simp_all add: add.assoc)
  then show ?case
    by (simp add: store_calls_def)
qed

lemma length_written:
  "\<forall>call \<in> set calls. length (fst call) = 2 * unat (fst (snd call)) \<Longrightarrow>
   length (concat (map fst calls)) = 2 * sum_list (map (\<lambda>call. unat (fst (snd call))) calls)"
  by (induction calls) simp_all

lemma Fetch_holds:
  assumes "client_ring_holds base c h" "ch = 0 \<or> ch = 1" "1 \<le> unat off"
    and "base + unat off \<le> unat (mRoutingBufferWritePos c)"
  shows "FetchFromRoutingBuffer c ch off =
           h ! (2 * (unat (mRoutingBufferWritePos c) - unat off - base) + unat ch)"
proof -
  have N: "kRoutingBufferFrames = 8192" "kRoutingBufferChannels = 2"
    by (simp_all add: kRoutingBufferFrames_def kRoutingBufferChannels_def)
  let ?w = "mRoutingBufferWritePos c"
  define p where "p = unat ?w - unat off - base"
  from assms(1) obtain buf where buf: "mRoutingBuffer c = Some buf" "mRoutingBufferAllocated c"
    and rh: "ring_holds base buf ?w h"
    by (auto simp: client_ring_holds_def split: option.splits)
  from rh have lh: "length h = 2 * (unat ?w - base)"
    by (simp add: ring_holds_def)
  from rh have inv:
    "\<And>i. i < length h \<Longrightarrow> buf ! (((base + i div 2) mod 8192) * 2 + i mod 2) = h ! i"
    by (simp add: ring_holds_def N)
  have le: "off \<le> ?w"
    using assms(4) by (simp add: word_le_nat_alt)
  then have nlt: "\<not> ?w < off"
    by simp
  have t: "unat (?w - off) = base + p"
    using le assms(4) by (simp add: unat_sub p_def)
  have sl: "(base + p) mod 8192 < 8192"
    by simp
  have off: "unat (bufferOffset (?w - off)) = ((base + p) mod 8192) * 2"
    by (simp add: unat_bufferOffset N t)
  have chn: "unat (ucast ch :: UInt32) = unat ch" "unat ch \<le> 1"
    using assms(2) by auto
  have idx: "unat (bufferOffset (?w - off) + ucast ch) = ((base + p) mod 8192) * 2 + unat ch"
    using off sl chn by (simp add: unat_word_ariths)
  have inr: "\<not> (sint ch < 0 \<or> sint ch \<ge> int kRoutingBufferChannels)"
    using assms(2) by (simp add: channel_out_of_range)
  have lt: "2 * p + unat ch < length h"
    using lh assms(3,4) chn(2) by (simp add: p_def)
  have dm: "(2 * p + unat ch) div 2 = p" "(2 * p + unat ch) mod 2 = unat ch"
    using chn(2) by simp_all
  have "buf ! (((base + p) mod 8192) * 2 + unat ch) = h ! (2 * p + unat ch)"
    using inv [OF lt] by (simp only: dm)
  then show ?thesis
    using buf nlt inr idx by (simp add: FetchFromRoutingBuffer_def Let_def p_def)
qed

lemma Fetch_silence:
  "mRoutingBufferWritePos c < off \<or> (ch \<noteq> 0 \<and> ch \<noteq> 1) \<Longrightarrow>
   FetchFromRoutingBuffer c ch off = f32_zero"
  using channel_out_of_range [of ch]
  by (auto simp: FetchFromRoutingBuffer_def Let_def split: option.splits)

lemma client_A_wrapping_facts:
  "routing_buffer_allocated client_A_wrapping"
  "unat (mRoutingBufferWritePos client_A_wrapping) = 8190"
proof -
  let ?calls = "[(replicate 16380 (F32 7), 8190 :: UInt32, F64 0)]"
  have "client_ring_holds 0 (store_calls (\<lambda>t n. t) (AllocateRoutingBuffer client_A) ?calls)
      ([] @ concat (map fst ?calls))"
    by (intro store_calls_holds Allocate_holds)
      (simp_all add: client_A_def new_BGM_Client_def kRoutingBufferFrames_def
        kRoutingBufferChannels_def)
  then have "client_ring_holds 0 client_A_wrapping (replicate 16380 (F32 7))"
    by (simp add: client_A_wrapping_def)
  from holds_allocated [OF this]
  show "routing_buffer_allocated client_A_wrapping"
    "unat (mRoutingBufferWritePos client_A_wrapping) = 8190"
    by simp_all
qed

text \<open>
  Claim C5. A client whose routing buffer is allocated, in whatever state earlier calls have
  left its samples and its \<open>write_pos\<close>, receives a sequence of \<open>Store\<close> calls, each
  handing over as many interleaved stereo frames as it announces, \<open>k \<le> RING_FRAMES\<close>
  frames in all; \<open>write_pos\<close>, which counts the frames ever stored, stays below \<open>2^64\<close>.
  Then \<open>write_pos\<close> has advanced by \<open>k\<close>, and for either channel and every sample offset
  from 1 to \<open>k\<close>, \<open>Fetch\<close> returns the sample of that channel in the frame written at
  position \<open>write_pos - sample_offset\<close>, which is frame
  \<open>write_pos - sample_offset - write_pos\<^sub>0\<close> of the frames the calls handed over,
  \<open>write_pos\<^sub>0\<close> being the position before the calls; the slots of the ring are taken
  modulo \<open>RING_FRAMES\<close>, so the frames may lie across the end of the storage. For any
  client, \<open>Fetch\<close> returns 0.0 when \<open>write_pos\<close> is below the offset or the channel is
  neither 0 nor 1.
\<close>

theorem ring_fetch_returns_written:
  assumes "routing_buffer_allocated c0"
    and "\<forall>call \<in> set calls. length (fst call) = 2 * unat (fst (snd call))"
    and "sum_list (map (\<lambda>call. unat (fst (snd call))) calls) = k"
    and "k \<le> kRoutingBufferFrames"
    and "unat (mRoutingBufferWritePos c0) + k < 2 ^ 64"
    and "c = store_calls f c0 calls"
  shows "unat (mRoutingBufferWritePos c) = unat (mRoutingBufferWritePos c0) + k \<and>
    (\<forall>ch off. (ch = 0 \<or> ch = 1) \<and> 1 \<le> unat off \<and> unat off \<le> k \<longrightarrow>
       FetchFromRoutingBuffer c ch off =
         concat (map fst calls) !
           (2 * (unat (mRoutingBufferWritePos c) - unat off - unat (mRoutingBufferWritePos c0))
            + unat ch)) \<and>
    (\<forall>c' ch off. mRoutingBufferWritePos c' < off \<or> (ch \<noteq> 0 \<and> ch \<noteq> 1) \<longrightarrow>
       FetchFromRoutingBuffer c' ch off = f32_zero)"
proof -
  let ?h = "concat (map fst calls)"
  let ?b = "unat (mRoutingBufferWritePos c0)"
  have lh: "length ?h = 2 * k"
    using assms(2,3) length_written by blast
  have "client_ring_holds ?b (store_calls f c0 calls) ([] @ ?h)"
    using assms(2,4,5) lh
    by (intro store_calls_holds allocated_holds assms(1)) (simp_all add: kRoutingBufferChannels_def)
  then have h: "client_ring_holds ?b c ?h"
    using assms(6) by simp
  have w: "unat (mRoutingBufferWritePos c) = ?b + k"
    using holds_allocated [OF h] lh by simp
  show ?thesis
    using w Fetch_holds [OF h] Fetch_silence by auto
qed

theorem ring_fetch_returns_written_witness:
  "(let c = store_calls (\<lambda>t n. t) client_A_wrapping
              [([F32 10, F32 11, F32 20, F32 21, F32 30, F32 31], 3, F64 0),
               ([F32 40, F32 41, F32 50, F32 51], 2, F64 0)]
    in unat (mRoutingBufferWritePos c) = 8195 \<and>
       FetchFromRoutingBuffer c 0 5 = F32 10 \<and> FetchFromRoutingBuffer c 1 4 = F32 21 \<and>
       FetchFromRoutingBuffer c 0 3 = F32 30 \<and> FetchFromRoutingBuffer c 1 2 = F32 41 \<and>
       FetchFromRoutingBuffer c 0 1 = F32 50)"
proof -
  let ?calls = "[([F32 10, F32 11, F32 20, F32 21, F32 30, F32 31], 3 :: UInt32, F64 0),
                 ([F32 40, F32 41, F32 50, F32 51], 2, F64 0)]"
  let ?c = "store_calls (\<lambda>t n. t) client_A_wrapping ?calls"
  have h: "routing_buffer_allocated client_A_wrapping"
    "\<forall>call \<in> set ?calls. length (fst call) = 2 * unat (fst (snd call))"
    "sum_list (map (\<lambda>call. unat (fst (snd call))) ?calls) = 5"
    "5 \<le> kRoutingBufferFrames"
    "unat (mRoutingBufferWritePos client_A_wrapping) + 5 < 2 ^ 64"
    by (simp_all add: client_A_wrapping_facts kRoutingBufferFrames_def)
  have w: "unat (mRoutingBufferWritePos ?c) = 8195"
    using ring_fetch_returns_written [OF h refl] by (simp add: client_A_wrapping_facts)
  have r: "\<And>ch off. (ch = 0 \<or> ch = 1) \<and> 1 \<le> unat off \<and> unat off \<le> 5 \<Longrightarrow>
       FetchFromRoutingBuffer ?c ch off =
         concat (map fst ?calls) ! (2 * (8195 - unat off - 8190) + unat ch)"
    using ring_fetch_returns_written [OF h refl] w by (simp add: client_A_wrapping_facts)
  show ?thesis
    using w r [of 0 5] r [of 1 4] r [of 0 3] r [of 1 2] r [of 0 1] by (simp add: Let_def)
qed

subsection \<open>A buffer that is not allocated\<close>

text \<open>
  Claim C10. When the routing buffer of a client is not allocated, \<open>StoreToRoutingBuffer\<close>
  returns the client as it was (no sample written, \<open>write_pos\<close> and every other field
  unchanged) and \<open>FetchFromRoutingBuffer\<close> returns 0.0 for every channel and offset. A new
  client and a client after \<open>DeallocateRoutingBuffer\<close> are in that state.
\<close>

theorem unallocated_buffer_is_inert:
  "(\<not> routing_buffer_usable c \<longrightarrow>
      StoreToRoutingBuffer f c inBuffer inFrameCount inSampleTime = c \<and>
      FetchFromRoutingBuffer c inChannel inSampleOffset = f32_zero) \<and>
   \<not> routing_buffer_usable (DeallocateRoutingBuffer c) \<and>
   \<not> routing_buffer_usable (new_BGM_Client inClientID inProcessID inIsNativeEndian inBundleID)"
  by (auto simp: routing_buffer_usable_def StoreToRoutingBuffer_def FetchFromRoutingBuffer_def
      DeallocateRoutingBuffer_def new_BGM_Client_def split: option.splits)

theorem unallocated_buffer_is_inert_witness:
  "\<not> routing_buffer_usable client_A \<and>
   StoreToRoutingBuffer (\<lambda>t n. t) client_A [F32 1, F32 2] 1 (F64 0) = client_A \<and>
   FetchFromRoutingBuffer client_A 0 1 = f32_zero"
  using unallocated_buffer_is_inert [of client_A "\<lambda>t n. t" "[F32 1, F32 2]" 1 "F64 0" 0 1]
  by (simp add: routing_buffer_usable_def client_A_def new_BGM_Client_def)

section \<open>IO reference counting: proofs\<close>

lemma map_upd_absent:
  "inClientID \<notin> set (map mClientID m) \<Longrightarrow>
   map (\<lambda>x. if mClientID x = inClientID then f x else x) m = m"
  by (induction m) auto

lemma find_absent:
  "inClientID \<notin> set (map mClientID m) \<Longrightarrow> find (\<lambda>c. mClientID c = inClientID) m = None"
  by (induction m) auto

lemma filter_upd_count:
  "distinct (map mClientID m) \<Longrightarrow> find (\<lambda>c. mClientID c = inClientID) m = Some c \<Longrightarrow>
   length (filter P (map (\<lambda>x. if mClientID x = inClientID then f x else x) m)) + (if P c then 1 else 0)
     = length (filter P m) + (if P (f c) then 1 else 0)"
proof (induction m)
  case Nil
  then show ?case by simp
next
  case (Cons a m)
  show ?case
  proof (cases "mClientID a = inClientID")
    case True
    then have "inClientID \<notin> set (map mClientID m)" and "a = c"
      using Cons.prems by auto
    then show ?thesis
      using True by (simp add: map_upd_absent)
  next
    case False
    then show ?thesis
      using Cons by simp
  qed
qed

lemma find_upd:
  "find (\<lambda>c. mClientID c = inClientID) m = Some c \<Longrightarrow> mClientID (f c) = mClientID c \<Longrightarrow>
   find (\<lambda>c. mClientID c = inClientID) (map (\<lambda>x. if mClientID x = inClientID then f x else x) m)
     = Some (f c)"
  by (induction m) (auto split: if_splits)

lemma find_id: "find (\<lambda>c. mClientID c = inClientID) m = Some c \<Longrightarrow> mClientID c = inClientID"
  by (induction m) (auto split: if_splits)

lemma distinct_upd:
  "(\<And>x. mClientID (f x) = mClientID x) \<Longrightarrow>
   map mClientID (map (\<lambda>x. if mClientID x = inClientID then f x else x) m) = map mClientID m"
  by (induction m) auto

lemma unat_succ_UInt64: "(w :: UInt64) \<noteq> UINT64_MAX \<Longrightarrow> unat (w + 1) = Suc (unat w)"
proof -
  assume "w \<noteq> UINT64_MAX"
  moreover have "(0xFFFFFFFFFFFFFFFF :: UInt64) = - 1"
    by simp
  ultimately have "w \<noteq> - 1"
    by (simp add: UINT64_MAX_def)
  then have "1 + w \<noteq> 0"
    by (metis add.commute add_eq_0_iff)
  then show ?thesis
    using unatSuc [of w] by (simp add: add.commute)
qed

lemma unat_pred_UInt64: "(w :: UInt64) \<noteq> 0 \<Longrightarrow> unat (w - 1) = unat w - 1"
  by (simp add: unat_minus_one)


lemma Start_marks:
  "GetClientNonRT m inClientID = Some c \<Longrightarrow>
   GetClientNonRT (ClientMap_StartIONonRT m inClientID) inClientID = Some (c\<lparr>mDoingIO := True\<rparr>)"
  unfolding GetClientNonRT_def ClientMap_StartIONonRT_def
  by (rule find_upd) simp_all

lemma Stop_marks:
  "GetClientNonRT m inClientID = Some c \<Longrightarrow>
   GetClientNonRT (ClientMap_StopIONonRT m inClientID) inClientID = Some (c\<lparr>mDoingIO := False\<rparr>)"
  unfolding GetClientNonRT_def ClientMap_StopIONonRT_def
  by (rule find_upd) simp_all

text \<open>
  The outcomes of \<open>StartIONonRT\<close> in any engine, whatever its counters hold: the two
  guards on the counters are cases of their own.
\<close>

lemma StartIONonRT_cases:
  "(GetClientNonRT (mClientMap s) inClientID = None \<longrightarrow>
      StartIONonRT s inClientID = (Inl BGM_InvalidClientException, s)) \<and>
   (\<forall>c. GetClientNonRT (mClientMap s) inClientID = Some c \<and> mDoingIO c \<longrightarrow>
      StartIONonRT s inClientID =
        (Inr \<lparr>returned = False, sendIsRunningNotification = False,
              sendIsRunningSomewhereOtherThanBGMAppNotification = False\<rparr>, s)) \<and>
   (\<forall>c. GetClientNonRT (mClientMap s) inClientID = Some c \<and> \<not> mDoingIO c \<and>
        mStartCount s = UINT64_MAX \<longrightarrow>
      StartIONonRT s inClientID = (Inl CAException_IllegalOperation, s)) \<and>
   (\<forall>c. GetClientNonRT (mClientMap s) inClientID = Some c \<and> \<not> mDoingIO c \<and>
        mStartCount s \<noteq> UINT64_MAX \<and>
        \<not> IsBGMApp s inClientID \<and> mStartCountExcludingBGMApp s = UINT64_MAX \<longrightarrow>
      fst (StartIONonRT s inClientID) = Inl CAException_IllegalOperation) \<and>
   (\<forall>c. GetClientNonRT (mClientMap s) inClientID = Some c \<and> \<not> mDoingIO c \<and>
        mStartCount s \<noteq> UINT64_MAX \<and>
        (IsBGMApp s inClientID \<or> mStartCountExcludingBGMApp s \<noteq> UINT64_MAX) \<longrightarrow>
      (\<exists>r s'. StartIONonRT s inClientID = (Inr r, s') \<and>
         GetClientNonRT (mClientMap s') inClientID = Some (c\<lparr>mDoingIO := True\<rparr>) \<and>
         unat (mStartCount s') = unat (mStartCount s) + 1 \<and>
         unat (mStartCountExcludingBGMApp s') =
           (if IsBGMApp s inClientID then unat (mStartCountExcludingBGMApp s)
            else unat (mStartCountExcludingBGMApp s) + 1) \<and>
         returned r = (mStartCount s = 0)))"
proof -
  have one: "(w + 1 = 1) = (w = 0)" for w :: UInt64
    by simp
  show ?thesis
    by (auto simp: StartIONonRT_def Let_def IsBGMApp_def Start_marks unat_succ_UInt64 one)
qed


text \<open>
  Claim C3. For a client in the map that is doing IO, \<open>StopIONonRT\<close> fails with
  \<open>IllegalOperation\<close> when a counter it has to decrement is zero; otherwise it clears the
  record's flag, decrements \<open>start_count\<close> (and the second counter for a client that is not
  the control app), flags the running-elsewhere notification exactly when the second counter
  goes from non-zero to 0, and returns true exactly when \<open>start_count\<close> has reached 0. For a
  client that is not doing IO it returns false and leaves the engine as it was.
\<close>

theorem StopIONonRT_outcomes:
  "(\<forall>c. GetClientNonRT (mClientMap s) inClientID = Some c \<and> mDoingIO c \<and>
        (mStartCount s = 0 \<or> \<not> IsBGMApp s inClientID \<and> mStartCountExcludingBGMApp s = 0) \<longrightarrow>
      fst (StopIONonRT s inClientID) = Inl CAException_IllegalOperation) \<and>
   (\<forall>c. GetClientNonRT (mClientMap s) inClientID = Some c \<and> mDoingIO c \<and>
        mStartCount s \<noteq> 0 \<and> (IsBGMApp s inClientID \<or> mStartCountExcludingBGMApp s \<noteq> 0) \<longrightarrow>
      (\<exists>r s'. StopIONonRT s inClientID = (Inr r, s') \<and>
         GetClientNonRT (mClientMap s') inClientID = Some (c\<lparr>mDoingIO := False\<rparr>) \<and>
         unat (mStartCount s') = unat (mStartCount s) - 1 \<and>
         unat (mStartCountExcludingBGMApp s') =
           (if IsBGMApp s inClientID then unat (mStartCountExcludingBGMApp s)
            else unat (mStartCountExcludingBGMApp s) - 1) \<and>
         sendIsRunningSomewhereOtherThanBGMAppNotification r =
           (mStartCountExcludingBGMApp s \<noteq> 0 \<and> mStartCountExcludingBGMApp s' = 0) \<and>
         returned r = (mStartCount s' = 0) \<and>
         sendIsRunningNotification r = returned r)) \<and>
   (\<forall>c. GetClientNonRT (mClientMap s) inClientID = Some c \<and> \<not> mDoingIO c \<longrightarrow>
      StopIONonRT s inClientID =
        (Inr \<lparr>returned = False, sendIsRunningNotification = False,
              sendIsRunningSomewhereOtherThanBGMAppNotification = False\<rparr>, s))"
  by (auto simp: StopIONonRT_def Let_def IsBGMApp_def Stop_marks unat_pred_UInt64)

theorem StopIONonRT_outcomes_witness:
  "\<exists>r s'. StopIONonRT (snd (StartIONonRT engine_ABC 1)) 1 = (Inr r, s') \<and>
     GetClientNonRT (mClientMap s') 1 = Some client_A \<and>
     unat (mStartCount s') = 0 \<and> unat (mStartCountExcludingBGMApp s') = 0 \<and>
     sendIsRunningSomewhereOtherThanBGMAppNotification r \<and> returned r \<and>
     sendIsRunningNotification r"
proof -
  let ?s = "snd (StartIONonRT engine_ABC 1)"
  have s: "?s = engine_ABC\<lparr>mClientMap := [client_A\<lparr>mDoingIO := True\<rparr>, client_B,
      client_C\<lparr>mIsMusicPlayer := False\<rparr>], mStartCount := 1, mStartCountExcludingBGMApp := 1\<rparr>"
    by (simp add: StartIONonRT_def GetClientNonRT_def ClientMap_StartIONonRT_def IsBGMApp_def
        engine_ABC_fields client_ids UINT64_MAX_def Let_def)
  have g: "GetClientNonRT (mClientMap ?s) 1 = Some (client_A\<lparr>mDoingIO := True\<rparr>)"
    by (simp add: s GetClientNonRT_def client_ids)
  have n: "\<not> IsBGMApp ?s 1" "mStartCount ?s = 1" "mStartCountExcludingBGMApp ?s = 1"
    by (simp_all add: s IsBGMApp_def engine_ABC_fields)
  have c: "client_A\<lparr>mDoingIO := True, mDoingIO := False\<rparr> = client_A"
    by (simp add: scenario_defs)
  show ?thesis
    using StopIONonRT_outcomes [of ?s 1] g n c
    by (auto simp: unat_eq_0)
qed

lemma at_most_one_with_id:
  "distinct (map mClientID m) \<Longrightarrow> length (filter (\<lambda>c. P c \<and> mClientID c = b) m) \<le> 1"
proof (induction m)
  case Nil
  then show ?case by simp
next
  case (Cons a m)
  show ?case
  proof (cases "mClientID a = b")
    case True
    then have "b \<notin> mClientID ` set m"
      using Cons.prems by auto
    then have "filter (\<lambda>c. P c \<and> mClientID c = b) m = []"
      by (auto simp: filter_empty_conv)
    then show ?thesis by simp
  next
    case False
    then show ?thesis using Cons by simp
  qed
qed

lemma filter_split_count:
  "length (filter P m) = length (filter (\<lambda>c. P c \<and> \<not> Q c) m) + length (filter (\<lambda>c. P c \<and> Q c) m)"
  by (induction m) auto

lemma IsBGMApp_word:
  assumes "0 \<le> mBGMAppClientID s" "mBGMAppClientID s < 2 ^ 32"
  shows "IsBGMApp s x = (x = word_of_int (mBGMAppClientID s))"
proof -
  have "take_bit 32 (mBGMAppClientID s) = mBGMAppClientID s"
    using assms by (intro take_bit_int_eq_self) simp_all
  then have u: "uint (word_of_int (mBGMAppClientID s) :: UInt32) = mBGMAppClientID s"
    by (simp add: uint_word_of_int_eq)
  show ?thesis
  proof
    assume "IsBGMApp s x"
    then have "word_of_int (uint x) = (word_of_int (mBGMAppClientID s) :: UInt32)"
      by (simp only: IsBGMApp_def)
    then show "x = word_of_int (mBGMAppClientID s)"
      by (simp only: word_of_int_uint)
  next
    assume "x = word_of_int (mBGMAppClientID s)"
    then show "IsBGMApp s x"
      using u by (simp only: IsBGMApp_def)
  qed
qed

lemma IsBGMApp_never:
  assumes "\<not> (0 \<le> mBGMAppClientID s \<and> mBGMAppClientID s < 2 ^ 32)"
  shows "\<not> IsBGMApp s x"
proof
  assume "IsBGMApp s x"
  then have e: "mBGMAppClientID s = uint x"
    by (simp only: IsBGMApp_def)
  have "0 \<le> uint x \<and> uint x < 2 ^ 32"
    using uint_lt2p [of x] by simp
  then show False
    using assms unfolding e by blast
qed

lemma doing_bgm_at_most_one:
  assumes "distinct (map mClientID m)"
  shows "length (filter (\<lambda>c. mDoingIO c \<and> IsBGMApp s (mClientID c)) m) \<le> 1"
proof (cases "0 \<le> mBGMAppClientID s \<and> mBGMAppClientID s < 2 ^ 32")
  case True
  then have eq: "(\<lambda>c. mDoingIO c \<and> IsBGMApp s (mClientID c)) =
      (\<lambda>c. mDoingIO c \<and> mClientID c = word_of_int (mBGMAppClientID s))"
    by (simp only: IsBGMApp_word)
  show ?thesis
    unfolding eq using assms by (rule at_most_one_with_id)
next
  case False
  then have "\<not> IsBGMApp s x" for x
    by (rule IsBGMApp_never)
  then have "filter (\<lambda>c. mDoingIO c \<and> IsBGMApp s (mClientID c)) m = []"
    by (simp add: filter_empty_conv)
  then show ?thesis
    by simp
qed

lemma counts_exact_bounds:
  assumes "counts_exact s"
  shows "unat (mStartCountExcludingBGMApp s) \<le> unat (mStartCount s)"
    and "unat (mStartCount s) \<le> unat (mStartCountExcludingBGMApp s) + 1"
proof -
  let ?m = "mClientMap s"
  define a where "a = length (filter mDoingIO ?m)"
  define b where "b = length (filter (\<lambda>c. mDoingIO c \<and> \<not> IsBGMApp s (mClientID c)) ?m)"
  define e where "e = length (filter (\<lambda>c. mDoingIO c \<and> IsBGMApp s (mClientID c)) ?m)"
  have d: "distinct (map mClientID ?m)"
    and sc: "unat (mStartCount s) = a"
    and ex: "unat (mStartCountExcludingBGMApp s) = b"
    using assms unfolding counts_exact_def a_def b_def by blast+
  have split: "a = b + e"
    unfolding a_def b_def e_def by (rule filter_split_count)
  have "e \<le> 1"
    unfolding e_def using d by (rule doing_bgm_at_most_one)
  with split show "unat (mStartCountExcludingBGMApp s) \<le> unat (mStartCount s)"
    and "unat (mStartCount s) \<le> unat (mStartCountExcludingBGMApp s) + 1"
    unfolding sc ex by linarith+
qed

lemma counts_exact_in_sync:
  assumes "counts_exact s"
  shows "counts_in_sync s"
proof (cases "mStartCountExcludingBGMApp s = mStartCount s")
  case True
  then show ?thesis by (simp add: counts_in_sync_def)
next
  case False
  then have "unat (mStartCountExcludingBGMApp s) \<noteq> unat (mStartCount s)"
    by (simp add: word_unat_eq_iff)
  with counts_exact_bounds [OF assms]
  have a: "unat (mStartCount s) = unat (mStartCountExcludingBGMApp s) + 1"
    by simp
  then have "mStartCount s \<noteq> 0"
    by auto
  then have "unat (mStartCount s - 1) = unat (mStartCountExcludingBGMApp s)"
    using a by (simp add: unat_pred_UInt64)
  then show ?thesis
    by (simp add: counts_in_sync_def word_unat_eq_iff)
qed


lemma unat_below_max: "(w :: UInt64) \<noteq> UINT64_MAX \<Longrightarrow> unat w < unat UINT64_MAX"
proof -
  assume "w \<noteq> UINT64_MAX"
  then have "unat w \<noteq> unat UINT64_MAX"
    by (simp add: word_unat_eq_iff)
  moreover have "unat UINT64_MAX = 18446744073709551615"
    by (simp add: UINT64_MAX_def)
  moreover have "unat w < 2 ^ 64"
    using unsigned_less [of w] by simp
  ultimately show ?thesis
    by simp
qed

lemma Start_preserves_counts:
  assumes "counts_exact s"
  shows "counts_exact (snd (StartIONonRT s inClientID))"
proof (cases "GetClientNonRT (mClientMap s) inClientID")
  case None
  then show ?thesis using assms by (simp add: StartIONonRT_def)
next
  case (Some c)
  let ?m = "mClientMap s"
  let ?Q = "\<lambda>c. mDoingIO c \<and> \<not> IsBGMApp s (mClientID c)"
  have d: "distinct (map mClientID ?m)"
    and sc: "unat (mStartCount s) = length (filter mDoingIO ?m)"
    and ex: "unat (mStartCountExcludingBGMApp s) = length (filter ?Q ?m)"
    using assms by (simp_all add: counts_exact_def)
  have fnd: "find (\<lambda>c. mClientID c = inClientID) ?m = Some c"
    using Some by (simp add: GetClientNonRT_def)
  have cid: "mClientID c = inClientID"
    using fnd by (rule find_id)
  show ?thesis
  proof (cases "mDoingIO c \<or> mStartCount s = UINT64_MAX")
    case True
    then show ?thesis using assms Some by (auto simp: StartIONonRT_def)
  next
    case False
    let ?m' = "ClientMap_StartIONonRT ?m inClientID"
    have d': "distinct (map mClientID ?m')"
      using d unfolding ClientMap_StartIONonRT_def by (subst distinct_upd) simp_all
    have n1: "length (filter mDoingIO ?m') = Suc (length (filter mDoingIO ?m))"
      using filter_upd_count [OF d fnd, of mDoingIO "\<lambda>c. c\<lparr>mDoingIO := True\<rparr>"] False
      by (simp add: ClientMap_StartIONonRT_def)
    have n2: "length (filter ?Q ?m') =
        (if IsBGMApp s inClientID then length (filter ?Q ?m) else Suc (length (filter ?Q ?m)))"
      using filter_upd_count [OF d fnd, of ?Q "\<lambda>c. c\<lparr>mDoingIO := True\<rparr>"] False cid
      by (simp add: ClientMap_StartIONonRT_def)
    have s1: "unat (mStartCount s + 1) = Suc (unat (mStartCount s))"
      using False by (simp add: unat_succ_UInt64)
    have "unat (mStartCountExcludingBGMApp s) \<le> unat (mStartCount s)"
      using counts_exact_bounds(1) [OF assms] .
    moreover have "unat (mStartCount s) < unat UINT64_MAX"
      using False by (simp add: unat_below_max)
    ultimately have exn: "mStartCountExcludingBGMApp s \<noteq> UINT64_MAX"
      by auto
    then have s2: "unat (mStartCountExcludingBGMApp s + 1) = Suc (unat (mStartCountExcludingBGMApp s))"
      by (simp add: unat_succ_UInt64)
    show ?thesis
      using False Some exn d' n1 n2 s1 s2 sc ex
      by (simp add: StartIONonRT_def Let_def counts_exact_def IsBGMApp_def)
  qed
qed


lemma Stop_preserves_counts:
  assumes "counts_exact s"
  shows "counts_exact (snd (StopIONonRT s inClientID))"
proof (cases "GetClientNonRT (mClientMap s) inClientID")
  case None
  then show ?thesis using assms by (simp add: StopIONonRT_def)
next
  case (Some c)
  let ?m = "mClientMap s"
  let ?Q = "\<lambda>c. mDoingIO c \<and> \<not> IsBGMApp s (mClientID c)"
  have d: "distinct (map mClientID ?m)"
    and sc: "unat (mStartCount s) = length (filter mDoingIO ?m)"
    and ex: "unat (mStartCountExcludingBGMApp s) = length (filter ?Q ?m)"
    using assms by (simp_all add: counts_exact_def)
  have fnd: "find (\<lambda>c. mClientID c = inClientID) ?m = Some c"
    using Some by (simp add: GetClientNonRT_def)
  have cid: "mClientID c = inClientID"
    using fnd by (rule find_id)
  show ?thesis
  proof (cases "mDoingIO c")
    case False
    then show ?thesis using assms Some by (simp add: StopIONonRT_def)
  next
    case True
    let ?m' = "ClientMap_StopIONonRT ?m inClientID"
    have d': "distinct (map mClientID ?m')"
      using d unfolding ClientMap_StopIONonRT_def by (subst distinct_upd) simp_all
    have n1: "Suc (length (filter mDoingIO ?m')) = length (filter mDoingIO ?m)"
      using filter_upd_count [OF d fnd, of mDoingIO "\<lambda>c. c\<lparr>mDoingIO := False\<rparr>"] True
      by (simp add: ClientMap_StopIONonRT_def)
    have n2: "length (filter ?Q ?m) =
        (if IsBGMApp s inClientID then length (filter ?Q ?m') else Suc (length (filter ?Q ?m')))"
      using filter_upd_count [OF d fnd, of ?Q "\<lambda>c. c\<lparr>mDoingIO := False\<rparr>"] True cid
      by (auto simp: ClientMap_StopIONonRT_def)
    have nz: "mStartCount s \<noteq> 0"
      using n1 sc by auto
    have s1: "unat (mStartCount s - 1) = length (filter mDoingIO ?m')"
      using nz n1 sc by (simp add: unat_pred_UInt64)
    have exz: "\<not> IsBGMApp s inClientID \<Longrightarrow> mStartCountExcludingBGMApp s \<noteq> 0"
      using n2 ex by auto
    have s2: "\<not> IsBGMApp s inClientID \<Longrightarrow>
        unat (mStartCountExcludingBGMApp s - 1) = length (filter ?Q ?m')"
      using exz n2 ex by (simp add: unat_pred_UInt64)
    show ?thesis
    proof (cases "IsBGMApp s inClientID")
      case True
      then show ?thesis
        using \<open>mDoingIO c\<close> Some nz d' s1 n2 ex
        by (simp add: StopIONonRT_def Let_def counts_exact_def IsBGMApp_def)
    next
      case False
      then show ?thesis
        using \<open>mDoingIO c\<close> Some nz d' s1 s2 exz
        by (simp add: StopIONonRT_def Let_def counts_exact_def IsBGMApp_def)
    qed
  qed
qed

lemma io_run_preserves_counts:
  "counts_exact s \<Longrightarrow> counts_exact (io_run s calls)"
proof (induction calls arbitrary: s)
  case Nil
  then show ?case by (simp add: io_run_def)
next
  case (Cons a calls)
  have "counts_exact (io_step s a)"
    using Cons.prems by (cases a) (simp_all add: Start_preserves_counts Stop_preserves_counts)
  then have "counts_exact (io_run (io_step s a) calls)"
    by (rule Cons.IH)
  then show ?case
    by (simp add: io_run_def)
qed

text \<open>Where the counters count the records doing IO, no increment can overflow: client ids
  are 32-bit, so that a map holds at most \<open>2^32\<close> records.\<close>

lemma counts_exact_below_max:
  assumes "counts_exact s"
  shows "mStartCount s \<noteq> UINT64_MAX" and "mStartCountExcludingBGMApp s \<noteq> UINT64_MAX"
proof -
  let ?m = "mClientMap s"
  have d: "distinct (map mClientID ?m)"
    and sc: "unat (mStartCount s) = length (filter mDoingIO ?m)"
    using assms unfolding counts_exact_def by blast+
  have "length ?m = card (set (map mClientID ?m))"
    using distinct_card [OF d] by simp
  also have "\<dots> \<le> card (UNIV :: UInt32 set)"
    by (rule card_mono) simp_all
  also have "\<dots> = 2 ^ 32"
    by (simp add: card_word)
  finally have "length ?m \<le> 2 ^ 32" .
  moreover have "length (filter mDoingIO ?m) \<le> length ?m"
    by (rule length_filter_le)
  ultimately have a: "unat (mStartCount s) \<le> 2 ^ 32"
    unfolding sc by linarith
  have b: "unat (mStartCountExcludingBGMApp s) \<le> 2 ^ 32"
    using counts_exact_bounds(1) [OF assms] a by linarith
  have m: "unat UINT64_MAX = 18446744073709551615"
    by (simp add: UINT64_MAX_def)
  show "mStartCount s \<noteq> UINT64_MAX"
    using a m by auto
  show "mStartCountExcludingBGMApp s \<noteq> UINT64_MAX"
    using b m by auto
qed

text \<open>The counters count the records doing IO in an engine at rest, and so after every
  sequence of start and stop calls from there.\<close>

lemma counts_exact_at_rest:
  assumes "distinct (map mClientID (mClientMap s))"
    and "\<forall>c \<in> set (mClientMap s). \<not> mDoingIO c"
    and "mStartCount s = 0" "mStartCountExcludingBGMApp s = 0"
  shows "counts_exact (io_run s calls)"
proof -
  have "filter mDoingIO (mClientMap s) = []"
    using assms(2) by (simp add: filter_empty_conv)
  moreover have "filter (\<lambda>c. mDoingIO c \<and> \<not> IsBGMApp s (mClientID c)) (mClientMap s) = []"
    using assms(2) by (simp add: filter_empty_conv)
  ultimately have "counts_exact s"
    using assms(1,3,4) by (simp add: counts_exact_def)
  then show ?thesis
    by (rule io_run_preserves_counts)
qed

text \<open>
  Claim C1. In an engine whose counters count the records doing IO, as they do after every
  sequence of start and stop calls from an engine with distinct client ids, no client doing
  IO and both counters at 0, for every client id:
  if the id is not in the map, \<open>StartIONonRT\<close> fails with \<open>InvalidClient\<close> and changes
  nothing; if the client's record is already doing IO, it returns false, flags no
  notification and leaves the engine, and so both counters, unchanged; otherwise it marks
  the record as doing IO, increments \<open>start_count\<close> (and
  \<open>start_count_excluding_control_app\<close> when the client is not the control app) and returns
  true exactly when \<open>start_count\<close> was 0 before the call.
\<close>

theorem StartIONonRT_marks_and_counts:
  assumes "counts_exact s"
  shows
  "(GetClientNonRT (mClientMap s) inClientID = None \<longrightarrow>
      StartIONonRT s inClientID = (Inl BGM_InvalidClientException, s)) \<and>
   (\<forall>c. GetClientNonRT (mClientMap s) inClientID = Some c \<and> mDoingIO c \<longrightarrow>
      StartIONonRT s inClientID =
        (Inr \<lparr>returned = False, sendIsRunningNotification = False,
              sendIsRunningSomewhereOtherThanBGMAppNotification = False\<rparr>, s)) \<and>
   (\<forall>c. GetClientNonRT (mClientMap s) inClientID = Some c \<and> \<not> mDoingIO c \<longrightarrow>
      (\<exists>r s'. StartIONonRT s inClientID = (Inr r, s') \<and>
         GetClientNonRT (mClientMap s') inClientID = Some (c\<lparr>mDoingIO := True\<rparr>) \<and>
         unat (mStartCount s') = unat (mStartCount s) + 1 \<and>
         unat (mStartCountExcludingBGMApp s') =
           (if IsBGMApp s inClientID then unat (mStartCountExcludingBGMApp s)
            else unat (mStartCountExcludingBGMApp s) + 1) \<and>
         returned r = (mStartCount s = 0)))"
  using StartIONonRT_cases [of s inClientID] counts_exact_below_max [OF assms]
  by blast

theorem StartIONonRT_marks_and_counts_witness:
  "counts_exact engine_ABC \<and>
   (\<exists>r s'. StartIONonRT engine_ABC 1 = (Inr r, s') \<and>
      GetClientNonRT (mClientMap s') 1 = Some (client_A\<lparr>mDoingIO := True\<rparr>) \<and>
      unat (mStartCount s') = 1 \<and> unat (mStartCountExcludingBGMApp s') = 1 \<and> returned r)"
proof -
  have e: "counts_exact engine_ABC"
    by (simp add: counts_exact_def engine_ABC_fields client_ids)
  have g: "GetClientNonRT (mClientMap engine_ABC) 1 = Some client_A"
    by (simp add: GetClientNonRT_def engine_ABC_fields client_ids)
  have n: "\<not> IsBGMApp engine_ABC 1"
    by (simp add: IsBGMApp_def engine_ABC_fields)
  show ?thesis
    using StartIONonRT_marks_and_counts [OF e, of 1] e g n client_ids(4)
    by (simp add: engine_ABC_fields)
qed

text \<open>
  Claim C2. Start from an engine whose clients have distinct ids, none of them doing IO, and
  whose counters are both 0. After every call of any sequence of \<open>StartIONonRT\<close> and
  \<open>StopIONonRT\<close> calls (balanced or not, on any client ids), the assertion of the source
  holds: \<open>start_count_excluding_control_app\<close> is \<open>start_count\<close> or \<open>start_count - 1\<close>, also
  when the counters are read as unbounded numbers.
\<close>

theorem counts_in_sync_after_every_call:
  assumes "distinct (map mClientID (mClientMap s))"
    and "\<forall>c \<in> set (mClientMap s). \<not> mDoingIO c"
    and "mStartCount s = 0" "mStartCountExcludingBGMApp s = 0"
  shows "counts_in_sync (io_run s (take n calls)) \<and>
         unat (mStartCountExcludingBGMApp (io_run s (take n calls)))
           \<le> unat (mStartCount (io_run s (take n calls))) \<and>
         unat (mStartCount (io_run s (take n calls)))
           \<le> unat (mStartCountExcludingBGMApp (io_run s (take n calls))) + 1"
proof -
  have "filter mDoingIO (mClientMap s) = []"
    using assms(2) by (simp add: filter_empty_conv)
  moreover have "filter (\<lambda>c. mDoingIO c \<and> \<not> IsBGMApp s (mClientID c)) (mClientMap s) = []"
    using assms(2) by (simp add: filter_empty_conv)
  ultimately have "counts_exact s"
    using assms(1,3,4) by (simp add: counts_exact_def)
  then have e: "counts_exact (io_run s (take n calls))"
    by (rule io_run_preserves_counts)
  show ?thesis
    using counts_exact_in_sync [OF e] counts_exact_bounds [OF e] by simp
qed

theorem counts_in_sync_after_every_call_witness:
  "counts_in_sync (io_run engine_ABC (take 3 [StartIO 3, StartIO 1, StopIO 3, StopIO 1])) \<and>
   unat (mStartCountExcludingBGMApp (io_run engine_ABC (take 3 [StartIO 3, StartIO 1, StopIO 3, StopIO 1])))
     \<le> unat (mStartCount (io_run engine_ABC (take 3 [StartIO 3, StartIO 1, StopIO 3, StopIO 1])))"
proof -
  have "distinct (map mClientID (mClientMap engine_ABC))"
    and "\<forall>c \<in> set (mClientMap engine_ABC). \<not> mDoingIO c"
    and "mStartCount engine_ABC = 0" "mStartCountExcludingBGMApp engine_ABC = 0"
    by (simp_all add: engine_ABC_fields client_ids)
  then show ?thesis
    using counts_in_sync_after_every_call [of engine_ABC 3 "[StartIO 3, StartIO 1, StopIO 3, StopIO 1]"]
    by blast
qed

section \<open>Music player: proofs\<close>

lemma music_player_step_keeps_one:
  "\<not> both_designators_active s \<Longrightarrow> \<not> both_designators_active (music_player_step s call)"
  by (cases call)
    (auto simp: both_designators_active_def SetMusicPlayer_PID_def SetMusicPlayer_BundleID_def)

lemma music_player_run_keeps_one:
  "\<not> both_designators_active s \<Longrightarrow> \<not> both_designators_active (music_player_run s calls)"
  unfolding music_player_run_def
  by (induction calls arbitrary: s) (simp_all add: music_player_step_keeps_one)

text \<open>
  Claim C6. \<open>SetMusicPlayer(pid)\<close> fails with \<open>InvalidPID\<close> for a negative pid; returns false
  and changes nothing when the pid is the current PID designator; otherwise it stores the pid,
  clears the bundle-id designator, sets \<open>is_music_player\<close> of every client in the map to
  whether its process is that pid, and returns true. The bundle-id overload returns false and
  changes nothing for the current bundle id, and otherwise stores it, clears the PID
  designator, re-evaluates every client and returns true. So a sequence of calls that starts
  with at most one designator active (as a new engine does) ends with at most one active.
\<close>

theorem SetMusicPlayer_outcomes:
  "(inPID <s 0 \<longrightarrow> SetMusicPlayer_PID s inPID = (Inl BGM_InvalidClientPIDException, s)) \<and>
   (\<not> inPID <s 0 \<and> mMusicPlayerProcessIDProperty s = inPID \<longrightarrow>
      SetMusicPlayer_PID s inPID = (Inr False, s)) \<and>
   (\<not> inPID <s 0 \<and> mMusicPlayerProcessIDProperty s \<noteq> inPID \<longrightarrow>
      (\<exists>s'. SetMusicPlayer_PID s inPID = (Inr True, s') \<and>
         mMusicPlayerProcessIDProperty s' = inPID \<and> mMusicPlayerBundleIDProperty s' = [] \<and>
         mClientMap s' = map (\<lambda>c. c\<lparr>mIsMusicPlayer := (mProcessID c = inPID)\<rparr>) (mClientMap s))) \<and>
   (mMusicPlayerBundleIDProperty s = inBundleID \<longrightarrow>
      SetMusicPlayer_BundleID s inBundleID = (Inr False, s)) \<and>
   (mMusicPlayerBundleIDProperty s \<noteq> inBundleID \<longrightarrow>
      (\<exists>s'. SetMusicPlayer_BundleID s inBundleID = (Inr True, s') \<and>
         mMusicPlayerBundleIDProperty s' = inBundleID \<and> mMusicPlayerProcessIDProperty s' = 0 \<and>
         mClientMap s' =
           map (\<lambda>c. c\<lparr>mIsMusicPlayer := (mBundleID c = Some inBundleID)\<rparr>) (mClientMap s))) \<and>
   \<not> both_designators_active new_BGM_Clients \<and>
   (\<not> both_designators_active s \<longrightarrow> \<not> both_designators_active (music_player_run s calls))"
  by (simp add: SetMusicPlayer_PID_def SetMusicPlayer_BundleID_def UpdateMusicPlayerFlags_PID_def
      UpdateMusicPlayerFlags_BundleID_def music_player_run_keeps_one)
    (simp add: both_designators_active_def new_BGM_Clients_def)

theorem SetMusicPlayer_outcomes_witness:
  "SetMusicPlayer_PID engine_ABC (- 1) = (Inl BGM_InvalidClientPIDException, engine_ABC) \<and>
   (\<exists>s'. SetMusicPlayer_PID engine_ABC 100 = (Inr True, s') \<and>
      mMusicPlayerProcessIDProperty s' = 100 \<and> mMusicPlayerBundleIDProperty s' = [] \<and>
      map mIsMusicPlayer (mClientMap s') = [True, False, False]) \<and>
   \<not> both_designators_active
        (music_player_run new_BGM_Clients [ByPID 100, ByBundleID ''com.example.A'', ByPID 101])"
proof -
  have a: "(- 1 :: pid_t) <s 0" "\<not> (100 :: pid_t) <s 0"
    "mMusicPlayerProcessIDProperty engine_ABC \<noteq> 100"
    by (simp_all add: scenario_defs word_sless_alt)
  have b: "\<not> both_designators_active new_BGM_Clients"
    by (simp add: both_designators_active_def new_BGM_Clients_def)
  have c: "map mIsMusicPlayer (map (\<lambda>c. c\<lparr>mIsMusicPlayer := (mProcessID c = 100)\<rparr>) (mClientMap engine_ABC))
      = [True, False, False]"
    by (simp add: scenario_defs)
  have 1: "SetMusicPlayer_PID engine_ABC (- 1) = (Inl BGM_InvalidClientPIDException, engine_ABC)"
    using SetMusicPlayer_outcomes [of "- 1" engine_ABC] a(1) by blast
  have "\<exists>s'. SetMusicPlayer_PID engine_ABC 100 = (Inr True, s') \<and>
      mMusicPlayerProcessIDProperty s' = 100 \<and> mMusicPlayerBundleIDProperty s' = [] \<and>
      mClientMap s' = map (\<lambda>c. c\<lparr>mIsMusicPlayer := (mProcessID c = 100)\<rparr>) (mClientMap engine_ABC)"
    using SetMusicPlayer_outcomes [of 100 engine_ABC] a(2,3) by blast
  then have 2: "\<exists>s'. SetMusicPlayer_PID engine_ABC 100 = (Inr True, s') \<and>
      mMusicPlayerProcessIDProperty s' = 100 \<and> mMusicPlayerBundleIDProperty s' = [] \<and>
      map mIsMusicPlayer (mClientMap s') = [True, False, False]"
    using c by auto
  have 3: "\<not> both_designators_active
        (music_player_run new_BGM_Clients [ByPID 100, ByBundleID ''com.example.A'', ByPID 101])"
    using SetMusicPlayer_outcomes [of 0 new_BGM_Clients "[]"
        "[ByPID 100, ByBundleID ''com.example.A'', ByPID 101]"] b by blast
  show ?thesis
    using 1 2 3 by blast
qed

section \<open>Routing graph: proofs\<close>

lemma f32_ne_self: "f32_ne g g = f32_is_nan g"
  by (auto simp: f32_ne_def)

lemma update_existing_route_None:
  "(update_existing_route a b g en rs = None) = (find (route_matches a b) rs = None)"
  by (induction rs) (auto split: option.splits)

lemma update_existing_route_found:
  "find (route_matches a b) rs = Some r \<Longrightarrow>
   \<exists>rs'. update_existing_route a b g en rs = Some (f32_ne (mGain r) g \<or> mEnabled r \<noteq> en, rs') \<and>
         find (route_matches a b) rs' = Some (r\<lparr>mGain := g, mEnabled := en\<rparr>)"
proof (induction rs)
  case Nil
  then show ?case by simp
next
  case (Cons x rs)
  show ?case
  proof (cases "route_matches a b x")
    case True
    then show ?thesis
      using Cons.prems by (auto simp: route_matches_def)
  next
    case False
    then obtain rs' where "update_existing_route a b g en rs =
        Some (f32_ne (mGain r) g \<or> mEnabled r \<noteq> en, rs')"
      "find (route_matches a b) rs' = Some (r\<lparr>mGain := g, mEnabled := en\<rparr>)"
      using Cons by auto
    then show ?thesis
      using False by simp
  qed
qed

lemma update_existing_route_again:
  "update_existing_route a b g en rs = Some r \<Longrightarrow>
   update_existing_route a b g en (snd r) = Some (f32_is_nan g, snd r)"
proof (induction rs arbitrary: r)
  case Nil
  then show ?case by simp
next
  case (Cons x rs)
  show ?case
  proof (cases "route_matches a b x")
    case True
    then show ?thesis
      using Cons.prems by (auto simp: route_matches_def f32_ne_self)
  next
    case False
    then obtain r' where r': "update_existing_route a b g en rs = Some r'" "r = (fst r', x # snd r')"
      using Cons.prems by (auto split: option.splits)
    then have "update_existing_route a b g en (snd r') = Some (f32_is_nan g, snd r')"
      using Cons.IH by simp
    then show ?thesis
      using False r' by simp
  qed
qed

lemma update_existing_route_appended:
  "update_existing_route a b g en rs = None \<Longrightarrow> route_matches a b r \<Longrightarrow>
   update_existing_route a b g en (rs @ [r]) =
     Some (f32_ne (mGain r) g \<or> mEnabled r \<noteq> en, rs @ [r\<lparr>mGain := g, mEnabled := en\<rparr>])"
  by (induction rs) (auto split: option.splits if_splits)

lemma SetRoute_twice:
  "snd (SetRoute (snd (SetRoute s a b g en)) a b g en) = snd (SetRoute s a b g en) \<and>
   fst (SetRoute (snd (SetRoute s a b g en)) a b g en) =
     (f32_is_nan g \<and> (en \<or> find (route_matches a b) (mRoutes s) \<noteq> None))"
proof (cases "update_existing_route a b g en (mRoutes s)")
  case None
  then have nf: "find (route_matches a b) (mRoutes s) = None"
    by (simp add: update_existing_route_None)
  show ?thesis
  proof (cases en)
    case True
    let ?new = "\<lparr>mSourcePID = a, mDestPID = b, mGain = g, mEnabled = True\<rparr>"
    have "update_existing_route a b g True (mRoutes s @ [?new]) =
        Some (f32_ne (mGain ?new) g \<or> mEnabled ?new \<noteq> True,
              mRoutes s @ [?new\<lparr>mGain := g, mEnabled := True\<rparr>])"
      using None True by (intro update_existing_route_appended) (simp_all add: route_matches_def)
    then show ?thesis
      using None True nf by (simp add: SetRoute_def f32_ne_self)
  next
    case False
    then show ?thesis
      using None nf by (simp add: SetRoute_def)
  qed
next
  case (Some r)
  then have "find (route_matches a b) (mRoutes s) \<noteq> None"
    using update_existing_route_None [of a b g en "mRoutes s"] by simp
  then show ?thesis
    using Some update_existing_route_again [OF Some] by (simp add: SetRoute_def)
qed

text \<open>
  Claim C4, as amended. After a call of \<open>SetRoute\<close>, a second call with the same tuple leaves
  the engine, and so the routing graph, as the first call left it; it returns
  \<open>changed = false\<close> when the gain is not a NaN. Updating an existing (source, dest) edge
  stores the gain and the flag and returns true exactly when the new gain compares unequal
  (the float \<open>!=\<close>) to the stored one or the enabled flag differs.
\<close>

theorem SetRoute_idempotent:
  "snd (SetRoute (snd (SetRoute s a b g en)) a b g en) = snd (SetRoute s a b g en) \<and>
   (\<not> f32_is_nan g \<longrightarrow> \<not> fst (SetRoute (snd (SetRoute s a b g en)) a b g en)) \<and>
   (\<forall>r. find (route_matches a b) (mRoutes s) = Some r \<longrightarrow>
      fst (SetRoute s a b g en) = (f32_ne (mGain r) g \<or> mEnabled r \<noteq> en) \<and>
      find (route_matches a b) (mRoutes (snd (SetRoute s a b g en)))
        = Some (r\<lparr>mGain := g, mEnabled := en\<rparr>))"
proof -
  have "fst (SetRoute s a b g en) = (f32_ne (mGain r) g \<or> mEnabled r \<noteq> en) \<and>
      find (route_matches a b) (mRoutes (snd (SetRoute s a b g en)))
        = Some (r\<lparr>mGain := g, mEnabled := en\<rparr>)"
    if "find (route_matches a b) (mRoutes s) = Some r" for r
    using update_existing_route_found [OF that, of g en] by (auto simp: SetRoute_def)
  then show ?thesis
    using SetRoute_twice [of s a b g en] by blast
qed

theorem SetRoute_idempotent_witness:
  "snd (SetRoute (snd (SetRoute engine_ABC 100 101 f32_one True)) 100 101 f32_one True)
     = snd (SetRoute engine_ABC 100 101 f32_one True) \<and>
   \<not> fst (SetRoute (snd (SetRoute engine_ABC 100 101 f32_one True)) 100 101 f32_one True) \<and>
   fst (SetRoute (snd (SetRoute engine_ABC 100 101 f32_one True)) 100 101 f32_zero True)"
proof -
  have n: "\<not> f32_is_nan f32_one"
    by (simp add: f32_is_nan_def f32_one_def)
  let ?s = "snd (SetRoute engine_ABC 100 101 f32_one True)"
  have f: "find (route_matches 100 101) (mRoutes ?s)
      = Some \<lparr>mSourcePID = 100, mDestPID = 101, mGain = f32_one, mEnabled = True\<rparr>"
    by (simp add: SetRoute_def scenario_defs route_matches_def)
  have ne: "f32_ne f32_one f32_zero"
    by (simp add: f32_ne_def f32_one_def f32_zero_def f32_is_zero_def)
  have "fst (SetRoute ?s 100 101 f32_zero True)"
    using SetRoute_idempotent [of ?s 100 101 f32_zero True] f ne by simp
  then show ?thesis
    using SetRoute_idempotent [of engine_ABC 100 101 f32_one True] n by blast
qed

text \<open>With a NaN gain the second call reports a change: a NaN compares unequal to itself.\<close>

theorem SetRoute_nan_counterexample:
  "fst (SetRoute (snd (SetRoute new_BGM_Clients 200 201 f32_nan True)) 200 201 f32_nan True)"
  by (simp add: SetRoute_def new_BGM_Clients_def route_matches_def f32_ne_def f32_is_nan_def
      f32_nan_def AllocateRoutingBufferForPID_def)

subsection \<open>The batch against the single edge\<close>


















text \<open>
  Why a zero gain is set apart above: both zeros compare equal, so that for a batch of two
  entries for one edge, the first with gain +0.0 and the second with gain -0.0, the batch,
  which writes an edge only where the values compare unequal, keeps the bits of +0.0, where
  the second \<open>SetRoute\<close> call stores those of -0.0. The two gains are equal floats.
\<close>

lemma SetRoutesFromArray_keeps_bits_of_zero:
  "mRoutes (snd (SetRoutesFromArray new_BGM_Clients
     [Some \<lparr>entrySourcePID = Some 200, entryDestPID = Some 201, entryGain = Some f32_zero,
            entryEnabled = None\<rparr>,
      Some \<lparr>entrySourcePID = Some 200, entryDestPID = Some 201, entryGain = Some f32_minus_zero,
            entryEnabled = None\<rparr>]))
   \<noteq> mRoutes (snd (SetRoutes_by_SetRoute new_BGM_Clients
     [Some \<lparr>entrySourcePID = Some 200, entryDestPID = Some 201, entryGain = Some f32_zero,
            entryEnabled = None\<rparr>,
      Some \<lparr>entrySourcePID = Some 200, entryDestPID = Some 201, entryGain = Some f32_minus_zero,
            entryEnabled = None\<rparr>]))"
  by (simp add: SetRoutesFromArray_def SetRoutes_by_SetRoute_def set_route_from_entry_def
      set_route_by_SetRoute_def set_route_in_batch_def SetRoute_def entry_gain_def
      entry_enabled_def new_BGM_Clients_def route_matches_def f32_ne_def f32_is_nan_def
      f32_is_zero_def f32_zero_def f32_minus_zero_def AllocateRoutingBufferForPID_def)

section \<open>App volumes: proofs\<close>

lemma volume_setters_keep:
  "pan_positions (snd (SetClientsRelativeVolume_PID m p v)) = pan_positions m"
  "pan_positions (snd (SetClientsRelativeVolume_BundleID m b v)) = pan_positions m"
  "eq_gains (snd (SetClientsRelativeVolume_PID m p v)) = eq_gains m"
  "eq_gains (snd (SetClientsRelativeVolume_BundleID m b v)) = eq_gains m"
  by (induction m)
    (simp_all add: SetClientsRelativeVolume_PID_def SetClientsRelativeVolume_BundleID_def
      pan_positions_def eq_gains_def)

lemma pan_setters_keep:
  "eq_gains (snd (SetClientsPanPosition_PID m p v)) = eq_gains m"
  "eq_gains (snd (SetClientsPanPosition_BundleID m b v)) = eq_gains m"
  by (induction m)
    (simp_all add: SetClientsPanPosition_PID_def SetClientsPanPosition_BundleID_def eq_gains_def)

lemma volume_block_keeps:
  "pan_positions (snd (snd (snd (volume_block K p b e m)))) = pan_positions m"
  "eq_gains (snd (snd (snd (volume_block K p b e m)))) = eq_gains m"
  by (simp_all add: volume_block_def Let_def volume_setters_keep split: option.splits)

lemma volume_block_error:
  "fst (volume_block K p b e m) =
     (if volume_out_of_range K e then Some BGM_InvalidClientRelativeVolumeException else None)"
  "volume_out_of_range K e \<Longrightarrow> snd (snd (snd (volume_block K p b e m))) = m"
  "volRelativeVolume e = None \<Longrightarrow> volume_block K p b e m = (None, False, False, m)"
  by (auto simp: volume_block_def volume_out_of_range_def Let_def split: option.splits)

lemma pan_block_keeps:
  "eq_gains (snd (snd (snd (pan_block K p b e m)))) = eq_gains m"
  by (simp add: pan_block_def Let_def pan_setters_keep split: option.splits)

lemma pan_block_error:
  "fst (pan_block K p b e m) =
     (if pan_out_of_range K e then Some BGM_InvalidClientPanPositionException else None)"
  "pan_out_of_range K e \<Longrightarrow> snd (snd (snd (pan_block K p b e m))) = m"
  "volPanPosition e = None \<Longrightarrow> pan_block K p b e m = (None, False, False, m)"
  by (auto simp: pan_block_def pan_out_of_range_def Let_def split: option.splits)

lemma eq_block_error:
  "fst (eq_block K p b e m) =
     (if eq_gain_out_of_range K e then Some BGM_InvalidClientRelativeVolumeException else None)"
  "eq_gain_out_of_range K e \<Longrightarrow> snd (snd (snd (eq_block K p b e m))) = m"
  "volEQLowGain e = None \<Longrightarrow> volEQMidGain e = None \<Longrightarrow> volEQHighGain e = None \<Longrightarrow>
   eq_block K p b e m = (None, False, False, m)"
  by (auto simp: eq_block_def eq_gain_out_of_range_def eq_out_of_range_def Let_def
      split: option.splits)

lemma set_app_volume_no_id:
  "entry_has_no_id e \<Longrightarrow>
   set_app_volume K u m e = (Inl BGM_InvalidClientRelativeVolumeException, m)"
  by (simp add: set_app_volume_def entry_has_no_id_def)

lemma set_app_volume_bad_volume:
  assumes "\<not> entry_has_no_id e" "volume_out_of_range K e"
  shows "set_app_volume K u m e = (Inl BGM_InvalidClientRelativeVolumeException, m)"
proof -
  let ?p = "case volProcessID e of None \<Rightarrow> u | Some p \<Rightarrow> p"
  obtain a b where "volume_block K ?p (volBundleID e) e m =
      (Some BGM_InvalidClientRelativeVolumeException, a, b, m)"
    using volume_block_error(1,2) [where K = K and p = ?p and b = "volBundleID e" and e = e and m = m] assms(2)
    by (cases "volume_block K ?p (volBundleID e) e m") auto
  then show ?thesis
    using assms(1) by (simp add: set_app_volume_def entry_has_no_id_def Let_def)
qed

lemma set_app_volume_bad_pan:
  assumes "\<not> entry_has_no_id e" "\<not> volume_out_of_range K e" "pan_out_of_range K e"
  shows "fst (set_app_volume K u m e) = Inl BGM_InvalidClientPanPositionException \<and>
         pan_positions (snd (set_app_volume K u m e)) = pan_positions m \<and>
         eq_gains (snd (set_app_volume K u m e)) = eq_gains m"
proof -
  let ?p = "case volProcessID e of None \<Rightarrow> u | Some p \<Rightarrow> p"
  obtain a b m1 where v: "volume_block K ?p (volBundleID e) e m = (None, a, b, m1)"
    using volume_block_error(1) [where K = K and p = ?p and b = "volBundleID e" and e = e and m = m] assms(2)
    by (cases "volume_block K ?p (volBundleID e) e m") auto
  have k1: "pan_positions m1 = pan_positions m" "eq_gains m1 = eq_gains m"
    using volume_block_keeps [where K = K and p = ?p and b = "volBundleID e" and e = e and m = m] v by simp_all
  obtain c d where p: "pan_block K ?p (volBundleID e) e m1 =
      (Some BGM_InvalidClientPanPositionException, c, d, m1)"
    using pan_block_error(1,2) [where K = K and p = ?p and b = "volBundleID e" and e = e and m = m1] assms(3)
    by (cases "pan_block K ?p (volBundleID e) e m1") auto
  show ?thesis
    using assms(1) v p k1 by (simp add: set_app_volume_def entry_has_no_id_def Let_def)
qed

lemma set_app_volume_bad_eq:
  assumes "\<not> entry_has_no_id e" "\<not> volume_out_of_range K e" "\<not> pan_out_of_range K e"
    and "eq_gain_out_of_range K e"
  shows "fst (set_app_volume K u m e) = Inl BGM_InvalidClientRelativeVolumeException \<and>
         eq_gains (snd (set_app_volume K u m e)) = eq_gains m"
proof -
  let ?p = "case volProcessID e of None \<Rightarrow> u | Some p \<Rightarrow> p"
  obtain a b m1 where v: "volume_block K ?p (volBundleID e) e m = (None, a, b, m1)"
    using volume_block_error(1) [where K = K and p = ?p and b = "volBundleID e" and e = e and m = m] assms(2)
    by (cases "volume_block K ?p (volBundleID e) e m") auto
  have k1: "eq_gains m1 = eq_gains m"
    using volume_block_keeps(2) [where K = K and p = ?p and b = "volBundleID e" and e = e and m = m] v by simp
  obtain c d m2 where p: "pan_block K ?p (volBundleID e) e m1 = (None, c, d, m2)"
    using pan_block_error(1) [where K = K and p = ?p and b = "volBundleID e" and e = e and m = m1] assms(3)
    by (cases "pan_block K ?p (volBundleID e) e m1") auto
  have k2: "eq_gains m2 = eq_gains m1"
    using pan_block_keeps [where K = K and p = ?p and b = "volBundleID e" and e = e and m = m1] p by simp
  obtain f g where q: "eq_block K ?p (volBundleID e) e m2 =
      (Some BGM_InvalidClientRelativeVolumeException, f, g, m2)"
    using eq_block_error(1,2) [where K = K and p = ?p and b = "volBundleID e" and e = e and m = m2] assms(4)
    by (cases "eq_block K ?p (volBundleID e) e m2") auto
  show ?thesis
    using assms(1) v p q k1 k2 by (simp add: set_app_volume_def entry_has_no_id_def Let_def)
qed

lemma set_app_volume_no_control:
  assumes "\<not> entry_has_no_id e" "entry_has_no_control e"
  shows "set_app_volume K u m e = (Inl BGM_InvalidClientRelativeVolumeException, m)"
  using assms
  by (simp add: set_app_volume_def entry_has_no_id_def entry_has_no_control_def Let_def
      volume_block_error(3) pan_block_error(3) eq_block_error(3))

lemma set_app_volume_invalid_throws:
  assumes "entry_invalid K e"
  shows "\<exists>ex. fst (set_app_volume K u m e) = Inl ex"
proof -
  consider "entry_has_no_id e"
    | "\<not> entry_has_no_id e" "volume_out_of_range K e"
    | "\<not> entry_has_no_id e" "\<not> volume_out_of_range K e" "pan_out_of_range K e"
    | "\<not> entry_has_no_id e" "\<not> volume_out_of_range K e" "\<not> pan_out_of_range K e"
      "eq_gain_out_of_range K e"
    | "\<not> entry_has_no_id e" "entry_has_no_control e"
    using assms by (auto simp: entry_invalid_def)
  then show ?thesis
  proof cases
    case 1
    then show ?thesis by (simp add: set_app_volume_no_id)
  next
    case 2
    then show ?thesis by (simp add: set_app_volume_bad_volume)
  next
    case 3
    then show ?thesis using set_app_volume_bad_pan [of e K u m] by simp
  next
    case 4
    then show ?thesis using set_app_volume_bad_eq [of e K u m] by simp
  next
    case 5
    then show ?thesis by (simp add: set_app_volume_no_control)
  qed
qed

lemma SetClientsRelativeVolumes_first_throws:
  "fst (set_app_volume K u (mClientMap s) e) = Inl ex \<Longrightarrow>
   SetClientsRelativeVolumes K u s (e # es) =
     (Inl ex, s\<lparr>mClientMap := snd (set_app_volume K u (mClientMap s) e)\<rparr>)"
  by (cases "set_app_volume K u (mClientMap s) e") (simp add: SetClientsRelativeVolumes_def)

text \<open>
  An entry without a process id is applied under the process id of the last entry that had
  one: in the batch below the two entries for a bundle id that no client has move the pan
  positions of process 100 and then of process 101, whatever the local held at first.
\<close>

lemma stale_theAppPID_in_batch:
  "pan_positions (mClientMap (snd (SetClientsRelativeVolumes scenario_BGM_Types u engine_ABC
     [pan_request (Some 100) None 10, pan_request None (Some ''com.example.X'') 50,
      pan_request (Some 101) None 11, pan_request None (Some ''com.example.X'') 51])))
   = [50, 51, 0]"
proof -
  have p: "mProcessID client_A = 100" "mProcessID client_B = 101" "mProcessID client_C = 102"
    "mPanPosition client_C = 0"
    "mBundleID client_A = Some ''com.example.A''" "mBundleID client_B = None"
    "mBundleID client_C = Some control_app_bundle_id"
    by (simp_all add: client_A_def client_B_def client_C_def new_BGM_Client_def)
  show ?thesis
    by (simp add: SetClientsRelativeVolumes_def set_app_volume_def volume_block_def
        pan_block_def eq_block_def theAppPID_after_def pan_request_def scenario_BGM_Types_def
        word_sless_alt engine_ABC_fields p SetClientsPanPosition_PID_def
        SetClientsPanPosition_BundleID_def Let_def pan_positions_def control_app_bundle_id_def)
qed

text \<open>
  Claim C7, as amended. An entry of \<open>SetClientsRelativeVolumes\<close> that is invalid (no PID and
  no bundle id, a volume, pan or EQ value out of range, or no control field) makes the
  operation fail, and the failing check leaves unmodified the control it guards and the
  controls checked after it, in the order volume, pan, EQ: an entry without identifier, with an
  out-of-range volume or with no control field modifies no client; an out-of-range pan fails
  with \<open>InvalidPanPosition\<close> and modifies no pan position and no EQ gain; an out-of-range EQ
  value modifies no EQ gain. (A control of the same entry that was checked before the failing
  one has been applied by then.) Stated for the entry at the head of the batch.
\<close>

theorem invalid_entry_keeps_later_controls:
  "(entry_invalid K e \<longrightarrow> (\<exists>ex. fst (SetClientsRelativeVolumes K u s (e # es)) = Inl ex)) \<and>
   (entry_has_no_id e \<or> volume_out_of_range K e \<or> entry_has_no_control e \<longrightarrow>
      SetClientsRelativeVolumes K u s (e # es) = (Inl BGM_InvalidClientRelativeVolumeException, s)) \<and>
   (\<not> entry_has_no_id e \<and> \<not> volume_out_of_range K e \<and> pan_out_of_range K e \<longrightarrow>
      fst (SetClientsRelativeVolumes K u s (e # es)) = Inl BGM_InvalidClientPanPositionException \<and>
      pan_positions (mClientMap (snd (SetClientsRelativeVolumes K u s (e # es))))
        = pan_positions (mClientMap s) \<and>
      eq_gains (mClientMap (snd (SetClientsRelativeVolumes K u s (e # es))))
        = eq_gains (mClientMap s)) \<and>
   (\<not> entry_has_no_id e \<and> \<not> volume_out_of_range K e \<and> \<not> pan_out_of_range K e \<and>
    eq_gain_out_of_range K e \<longrightarrow>
      fst (SetClientsRelativeVolumes K u s (e # es)) = Inl BGM_InvalidClientRelativeVolumeException \<and>
      eq_gains (mClientMap (snd (SetClientsRelativeVolumes K u s (e # es))))
        = eq_gains (mClientMap s))"
proof -
  let ?r = "set_app_volume K u (mClientMap s) e"
  have thrown: "SetClientsRelativeVolumes K u s (e # es) = (Inl ex, s\<lparr>mClientMap := snd ?r\<rparr>)"
    if "fst ?r = Inl ex" for ex
    using that by (rule SetClientsRelativeVolumes_first_throws)
  have 1: "\<exists>ex. fst (SetClientsRelativeVolumes K u s (e # es)) = Inl ex" if "entry_invalid K e"
    using set_app_volume_invalid_throws [OF that, of u "mClientMap s"] thrown by auto
  have 2: "SetClientsRelativeVolumes K u s (e # es) = (Inl BGM_InvalidClientRelativeVolumeException, s)"
    if "entry_has_no_id e \<or> volume_out_of_range K e \<or> entry_has_no_control e"
  proof -
    have "?r = (Inl BGM_InvalidClientRelativeVolumeException, mClientMap s)"
      using that set_app_volume_no_id [of e K u "mClientMap s"]
        set_app_volume_bad_volume [of e K u "mClientMap s"]
        set_app_volume_no_control [of e K u "mClientMap s"]
      by blast
    then show ?thesis
      using thrown [of BGM_InvalidClientRelativeVolumeException] by simp
  qed
  have 3: "fst (SetClientsRelativeVolumes K u s (e # es)) = Inl BGM_InvalidClientPanPositionException \<and>
      pan_positions (mClientMap (snd (SetClientsRelativeVolumes K u s (e # es))))
        = pan_positions (mClientMap s) \<and>
      eq_gains (mClientMap (snd (SetClientsRelativeVolumes K u s (e # es))))
        = eq_gains (mClientMap s)"
    if "\<not> entry_has_no_id e \<and> \<not> volume_out_of_range K e \<and> pan_out_of_range K e"
    using set_app_volume_bad_pan [of e K u "mClientMap s"] that
      thrown [of BGM_InvalidClientPanPositionException] by simp
  have 4: "fst (SetClientsRelativeVolumes K u s (e # es)) = Inl BGM_InvalidClientRelativeVolumeException \<and>
      eq_gains (mClientMap (snd (SetClientsRelativeVolumes K u s (e # es))))
        = eq_gains (mClientMap s)"
    if "\<not> entry_has_no_id e \<and> \<not> volume_out_of_range K e \<and> \<not> pan_out_of_range K e \<and>
      eq_gain_out_of_range K e"
    using set_app_volume_bad_eq [of e K u "mClientMap s"] that
      thrown [of BGM_InvalidClientRelativeVolumeException] by simp
  show ?thesis
    using 1 2 3 4 by blast
qed

lemma pan_then_bad_eq_facts:
  "\<not> entry_has_no_id pan_then_bad_eq"
  "\<not> volume_out_of_range scenario_BGM_Types pan_then_bad_eq"
  "\<not> pan_out_of_range scenario_BGM_Types pan_then_bad_eq"
  "eq_gain_out_of_range scenario_BGM_Types pan_then_bad_eq"
  by (simp_all add: pan_then_bad_eq_def scenario_BGM_Types_def entry_has_no_id_def
      volume_out_of_range_def pan_out_of_range_def eq_gain_out_of_range_def eq_out_of_range_def
      word_sless_alt)

theorem invalid_entry_keeps_later_controls_witness:
  "fst (SetClientsRelativeVolumes scenario_BGM_Types 0 engine_ABC [pan_then_bad_eq])
     = Inl BGM_InvalidClientRelativeVolumeException \<and>
   eq_gains (mClientMap (snd (SetClientsRelativeVolumes scenario_BGM_Types 0 engine_ABC [pan_then_bad_eq])))
     = eq_gains (mClientMap engine_ABC)"
  using invalid_entry_keeps_later_controls [of scenario_BGM_Types pan_then_bad_eq 0 engine_ABC "[]"]
    pan_then_bad_eq_facts
  by blast

text \<open>
  The claim as first stated says that a failing entry modifies no pan position. The entry
  for process 100 with pan 50 and an out-of-range EQ gain is invalid and the call fails, but
  client A, of process 100, has its pan position moved from 0 to 50 before the EQ check throws.
\<close>

theorem invalid_entry_partial_counterexample:
  "entry_invalid scenario_BGM_Types pan_then_bad_eq \<and>
   fst (SetClientsRelativeVolumes scenario_BGM_Types 0 engine_ABC [pan_then_bad_eq])
     = Inl BGM_InvalidClientRelativeVolumeException \<and>
   pan_positions (mClientMap engine_ABC) = [0, 0, 0] \<and>
   pan_positions (mClientMap (snd (SetClientsRelativeVolumes scenario_BGM_Types 0 engine_ABC
     [pan_then_bad_eq]))) = [50, 0, 0]"
proof -
  have m: "mClientMap engine_ABC = [client_A, client_B, client_C\<lparr>mIsMusicPlayer := False\<rparr>]"
    by (rule engine_ABC_fields(1))
  have p: "mProcessID client_A = 100" "mProcessID client_B = 101" "mProcessID client_C = 102"
    "mPanPosition client_A = 0" "mPanPosition client_B = 0" "mPanPosition client_C = 0"
    by (simp_all add: client_A_def client_B_def client_C_def new_BGM_Client_def)
  have i: "entry_invalid scenario_BGM_Types pan_then_bad_eq"
    using pan_then_bad_eq_facts(4) by (simp add: entry_invalid_def)
  have v: "volume_block scenario_BGM_Types 100 None pan_then_bad_eq (mClientMap engine_ABC)
      = (None, False, False, mClientMap engine_ABC)"
    by (simp add: volume_block_def pan_then_bad_eq_def)
  have pb: "pan_block scenario_BGM_Types 100 None pan_then_bad_eq (mClientMap engine_ABC)
      = (None, True, True, [client_A\<lparr>mPanPosition := 50\<rparr>, client_B, client_C\<lparr>mIsMusicPlayer := False\<rparr>])"
    by (simp add: pan_block_def pan_then_bad_eq_def scenario_BGM_Types_def word_sless_alt m p
        SetClientsPanPosition_PID_def SetClientsPanPosition_BundleID_def Let_def)
  have eb: "eq_block scenario_BGM_Types 100 None pan_then_bad_eq m' =
      (Some BGM_InvalidClientRelativeVolumeException, False, False, m')" for m'
    by (simp add: eq_block_def pan_then_bad_eq_def scenario_BGM_Types_def eq_out_of_range_def
        word_sless_alt Let_def)
  have r: "set_app_volume scenario_BGM_Types 0 (mClientMap engine_ABC) pan_then_bad_eq =
      (Inl BGM_InvalidClientRelativeVolumeException,
       [client_A\<lparr>mPanPosition := 50\<rparr>, client_B, client_C\<lparr>mIsMusicPlayer := False\<rparr>])"
    unfolding set_app_volume_def Let_def
    using v pb eb by (simp add: pan_then_bad_eq_def)
  show ?thesis
    using i r by (simp add: SetClientsRelativeVolumes_def pan_positions_def m p)
qed

section \<open>Mixing routed audio: proofs\<close>

lemma frame_index:
  assumes "i < unat (n :: UInt32)" "unat n \<le> 2 ^ 31"
  shows "unat ((word_of_nat i :: UInt32) * 2) = 2 * i"
    and "unat ((word_of_nat i :: UInt32) * 2 + 1) = 2 * i + 1"
    and "(ucast (n - word_of_nat i) :: UInt64) = word_of_nat (unat n - i)"
proof -
  have i: "i < 2 ^ 31"
    using assms by simp
  then have ui: "unat (word_of_nat i :: UInt32) = i"
    by (simp add: unat_of_nat)
  show a: "unat ((word_of_nat i :: UInt32) * 2) = 2 * i"
    using i ui by (simp add: unat_word_ariths)
  show "unat ((word_of_nat i :: UInt32) * 2 + 1) = 2 * i + 1"
    using i a by (simp add: unat_word_ariths)
  have le: "(word_of_nat i :: UInt32) \<le> n"
    using assms(1) ui by (simp add: word_le_nat_alt)
  have d: "unat (n - word_of_nat i) = unat n - i"
    using le ui by (simp add: unat_sub)
  have "unat (n - word_of_nat i) < 2 ^ 32"
    using unsigned_less [of "n - word_of_nat i"] by simp
  then have "unat (ucast (n - word_of_nat i) :: UInt64) = unat (n - word_of_nat i)"
    by (simp add: unsigned_ucast_eq take_bit_eq_mod)
  moreover have "unat n - i < 2 ^ 64"
    using assms by simp
  then have "unat (word_of_nat (unat n - i) :: UInt64) = unat n - i"
    by (simp add: unat_of_nat)
  ultimately show "(ucast (n - word_of_nat i) :: UInt64) = word_of_nat (unat n - i)"
    using d by (simp add: word_unat_eq_iff)
qed

lemma mix_frame_eq:
  assumes "i < unat (n :: UInt32)" "unat n \<le> 2 ^ 31"
  shows "mix_frame fa fm src g n io i =
     io[2 * i := fa (io ! (2 * i)) (fm (FetchFromRoutingBuffer src 0 (word_of_nat (unat n - i))) g),
        2 * i + 1 := fa (io ! (2 * i + 1))
                       (fm (FetchFromRoutingBuffer src 1 (word_of_nat (unat n - i))) g)]"
  by (simp add: mix_frame_def Let_def frame_index [OF assms])

text \<open>The frame loop after \<open>k\<close> iterations: the first \<open>k\<close> frames have received the route's
  contribution, the rest of the buffer is as it was.\<close>

lemma mix_frames_upto:
  assumes "unat (n :: UInt32) \<le> 2 ^ 31"
  shows "k \<le> unat n \<Longrightarrow>
    length (foldl (mix_frame fa fm src g n) io [0 ..< k]) = length io \<and>
    (\<forall>i < k.
       foldl (mix_frame fa fm src g n) io [0 ..< k] ! (2 * i) =
         fa (io ! (2 * i)) (fm (FetchFromRoutingBuffer src 0 (word_of_nat (unat n - i))) g) \<or>
       length io \<le> 2 * i) \<and>
    (\<forall>i < k.
       foldl (mix_frame fa fm src g n) io [0 ..< k] ! (2 * i + 1) =
         fa (io ! (2 * i + 1)) (fm (FetchFromRoutingBuffer src 1 (word_of_nat (unat n - i))) g) \<or>
       length io \<le> 2 * i + 1) \<and>
    (\<forall>j \<ge> 2 * k. foldl (mix_frame fa fm src g n) io [0 ..< k] ! j = io ! j)"
proof (induction k)
  case 0
  then show ?case by simp
next
  case (Suc k)
  let ?r = "foldl (mix_frame fa fm src g n) io [0 ..< k]"
  let ?L = "fm (FetchFromRoutingBuffer src 0 (word_of_nat (unat n - k))) g"
  let ?R = "fm (FetchFromRoutingBuffer src 1 (word_of_nat (unat n - k))) g"
  have k: "k < unat n"
    using Suc.prems by simp
  have ih: "length ?r = length io"
    "\<forall>i < k. ?r ! (2 * i) =
        fa (io ! (2 * i)) (fm (FetchFromRoutingBuffer src 0 (word_of_nat (unat n - i))) g) \<or>
        length io \<le> 2 * i"
    "\<forall>i < k. ?r ! (2 * i + 1) =
        fa (io ! (2 * i + 1)) (fm (FetchFromRoutingBuffer src 1 (word_of_nat (unat n - i))) g) \<or>
        length io \<le> 2 * i + 1"
    "\<forall>j \<ge> 2 * k. ?r ! j = io ! j"
    using Suc.IH k by simp_all
  have step: "foldl (mix_frame fa fm src g n) io [0 ..< Suc k] =
      ?r[2 * k := fa (?r ! (2 * k)) ?L, 2 * k + 1 := fa (?r ! (2 * k + 1)) ?R]"
    using mix_frame_eq [OF k assms] by simp
  have old: "?r ! (2 * k) = io ! (2 * k)" "?r ! (2 * k + 1) = io ! (2 * k + 1)"
    using ih(4) by simp_all
  show ?case
  proof (intro conjI allI impI)
    show "length (foldl (mix_frame fa fm src g n) io [0 ..< Suc k]) = length io"
      using ih(1) by (simp only: step) simp
  next
    fix i assume i: "i < Suc k"
    show "foldl (mix_frame fa fm src g n) io [0 ..< Suc k] ! (2 * i) =
         fa (io ! (2 * i)) (fm (FetchFromRoutingBuffer src 0 (word_of_nat (unat n - i))) g) \<or>
       length io \<le> 2 * i"
    proof (cases "i = k")
      case True
      then show ?thesis
        using ih(1) old by (simp only: step) (auto simp: nth_list_update)
    next
      case False
      then have "i < k" using i by simp
      then show ?thesis
        using ih(1) ih(2) by (simp only: step) (auto simp: nth_list_update)
    qed
  next
    fix i assume i: "i < Suc k"
    show "foldl (mix_frame fa fm src g n) io [0 ..< Suc k] ! (2 * i + 1) =
         fa (io ! (2 * i + 1)) (fm (FetchFromRoutingBuffer src 1 (word_of_nat (unat n - i))) g) \<or>
       length io \<le> 2 * i + 1"
    proof (cases "i = k")
      case True
      then show ?thesis
        using ih(1) old by (simp only: step) (auto simp: nth_list_update)
    next
      case False
      then have "i < k" using i by simp
      then show ?thesis
        using ih(1) ih(3) by (simp only: step) (auto simp: nth_list_update)
    qed
  next
    fix j assume "2 * Suc k \<le> j"
    then show "foldl (mix_frame fa fm src g n) io [0 ..< Suc k] ! j = io ! j"
      using ih(4) by (simp only: step) simp
  qed
qed

lemma mix_route_effect:
  assumes "unat (n :: UInt32) \<le> 2 ^ 31" "2 * unat n \<le> length io"
  shows "length (mix_route fa fm m dp n io r) = length io"
    and "i < unat n \<Longrightarrow> mix_route fa fm m dp n io r ! (2 * i) =
      (if route_contributes m dp r then add_contribution fa fm m 0 (unat n - i) (io ! (2 * i)) r
       else io ! (2 * i))"
    and "i < unat n \<Longrightarrow> mix_route fa fm m dp n io r ! (2 * i + 1) =
      (if route_contributes m dp r then add_contribution fa fm m 1 (unat n - i) (io ! (2 * i + 1)) r
       else io ! (2 * i + 1))"
    and "2 * unat n \<le> j \<Longrightarrow> mix_route fa fm m dp n io r ! j = io ! j"
proof -
  show "length (mix_route fa fm m dp n io r) = length io"
    using mix_frames_upto [OF assms(1), of "unat n"]
    by (simp add: mix_route_def split: option.splits)
  show "mix_route fa fm m dp n io r ! j = io ! j" if "2 * unat n \<le> j"
    using mix_frames_upto [OF assms(1), of "unat n"] that
    by (simp add: mix_route_def split: option.splits)
  show "mix_route fa fm m dp n io r ! (2 * i) =
      (if route_contributes m dp r then add_contribution fa fm m 0 (unat n - i) (io ! (2 * i)) r
       else io ! (2 * i))" if "i < unat n"
  proof (cases "route_contributes m dp r")
    case False
    then show ?thesis
      by (auto simp: mix_route_def route_contributes_def split: option.splits)
  next
    case True
    then obtain src where src: "GetClientByPIDRT m (mSourcePID r) = Some src"
      by (auto simp: route_contributes_def)
    have "\<not> length io \<le> 2 * i"
      using that assms(2) by simp
    then have "foldl (mix_frame fa fm src (mGain r) n) io [0 ..< unat n] ! (2 * i) =
        fa (io ! (2 * i)) (fm (FetchFromRoutingBuffer src 0 (word_of_nat (unat n - i))) (mGain r))"
      using mix_frames_upto [OF assms(1), of "unat n" fa fm src "mGain r" io] that by blast
    then show ?thesis
      using True src by (simp add: mix_route_def route_contributes_def add_contribution_def)
  qed
  show "mix_route fa fm m dp n io r ! (2 * i + 1) =
      (if route_contributes m dp r then add_contribution fa fm m 1 (unat n - i) (io ! (2 * i + 1)) r
       else io ! (2 * i + 1))" if "i < unat n"
  proof (cases "route_contributes m dp r")
    case False
    then show ?thesis
      by (auto simp: mix_route_def route_contributes_def split: option.splits)
  next
    case True
    then obtain src where src: "GetClientByPIDRT m (mSourcePID r) = Some src"
      by (auto simp: route_contributes_def)
    have "\<not> length io \<le> 2 * i + 1"
      using that assms(2) by simp
    then have "foldl (mix_frame fa fm src (mGain r) n) io [0 ..< unat n] ! (2 * i + 1) =
        fa (io ! (2 * i + 1)) (fm (FetchFromRoutingBuffer src 1 (word_of_nat (unat n - i))) (mGain r))"
      using mix_frames_upto [OF assms(1), of "unat n" fa fm src "mGain r" io] that by blast
    then show ?thesis
      using True src by (simp add: mix_route_def route_contributes_def add_contribution_def)
  qed
qed

lemma mix_routes_effect:
  assumes "unat (n :: UInt32) \<le> 2 ^ 31"
  shows "2 * unat n \<le> length io \<Longrightarrow>
    length (foldl (mix_route fa fm m dp n) io routes) = length io \<and>
    (\<forall>i < unat n.
       foldl (mix_route fa fm m dp n) io routes ! (2 * i) =
         mixed_sample fa fm m dp routes 0 (unat n - i) (io ! (2 * i)) \<and>
       foldl (mix_route fa fm m dp n) io routes ! (2 * i + 1) =
         mixed_sample fa fm m dp routes 1 (unat n - i) (io ! (2 * i + 1))) \<and>
    (\<forall>j \<ge> 2 * unat n. foldl (mix_route fa fm m dp n) io routes ! j = io ! j)"
proof (induction routes arbitrary: io)
  case Nil
  then show ?case by (simp add: mixed_sample_def)
next
  case (Cons r routes)
  let ?io = "mix_route fa fm m dp n io r"
  note e = mix_route_effect [OF assms Cons.prems, where fa = fa and fm = fm and m = m and dp = dp and r = r]
  have "2 * unat n \<le> length ?io"
    using Cons.prems e(1) by simp
  note ih = Cons.IH [OF this]
  show ?case
    using ih e by (simp add: mixed_sample_def)
qed

text \<open>
  Claim C8. The destination client is in the map, the buffer holds \<open>num_frames\<close> stereo
  frames, and \<open>num_frames\<close> is at most \<open>2^31\<close>, so that the sample indices fit the source's
  \<open>UInt32\<close>. Then \<open>MixRoutedAudioRT\<close> keeps the length of the buffer, and for every output
  frame \<open>i\<close> below \<open>num_frames\<close> the left sample \<open>io[2i]\<close> and the right sample \<open>io[2i+1]\<close>
  end as what was there with, added to it in the order of the graph, the gain times the
  source's ring sample at offset \<open>num_frames - i\<close> of every route that is enabled, targets the
  destination's process and whose source process has a client; no other route contributes,
  and the samples past the frames are untouched.
\<close>

theorem MixRoutedAudioRT_adds_routed_samples:
  assumes "GetClientPtrRT (mClientMap s) inClientID = Some destClient"
    and "2 * unat inNumFrames \<le> length ioBuffer"
    and "unat inNumFrames \<le> 2 ^ 31"
  shows "length (MixRoutedAudioRT f32_add f32_mul s inClientID ioBuffer inNumFrames)
           = length ioBuffer \<and>
    (\<forall>i < unat inNumFrames.
       MixRoutedAudioRT f32_add f32_mul s inClientID ioBuffer inNumFrames ! (2 * i) =
         mixed_sample f32_add f32_mul (mClientMap s) (mProcessID destClient) (mRoutes s) 0
           (unat inNumFrames - i) (ioBuffer ! (2 * i)) \<and>
       MixRoutedAudioRT f32_add f32_mul s inClientID ioBuffer inNumFrames ! (2 * i + 1) =
         mixed_sample f32_add f32_mul (mClientMap s) (mProcessID destClient) (mRoutes s) 1
           (unat inNumFrames - i) (ioBuffer ! (2 * i + 1))) \<and>
    (\<forall>j \<ge> 2 * unat inNumFrames.
       MixRoutedAudioRT f32_add f32_mul s inClientID ioBuffer inNumFrames ! j = ioBuffer ! j)"
  using mix_routes_effect [OF assms(3) assms(2), of f32_add f32_mul "mClientMap s"
      "mProcessID destClient" "mRoutes s"] assms(1)
  by (simp add: MixRoutedAudioRT_def)

lemma Store_keeps_identity:
  "mProcessID (StoreToRoutingBuffer f c b n t) = mProcessID c"
  "mClientID (StoreToRoutingBuffer f c b n t) = mClientID c"
  by (simp_all add: StoreToRoutingBuffer_def Let_def split: option.splits)

lemma client_A_stored_facts:
  "mProcessID client_A_stored = 100"
  "mClientID client_A_stored = 1"
  "FetchFromRoutingBuffer client_A_stored 0 2 = F32 10"
  "FetchFromRoutingBuffer client_A_stored 1 2 = F32 11"
  "FetchFromRoutingBuffer client_A_stored 0 1 = F32 20"
  "FetchFromRoutingBuffer client_A_stored 1 1 = F32 21"
proof -
  let ?calls = "[([F32 10, F32 11, F32 20, F32 21], 2 :: UInt32, F64 0)]"
  have a: "mProcessID (AllocateRoutingBuffer client_A) = 100"
    "mClientID (AllocateRoutingBuffer client_A) = 1"
    by (simp_all add: AllocateRoutingBuffer_def client_A_def new_BGM_Client_def)
  show "mProcessID client_A_stored = 100" "mClientID client_A_stored = 1"
    using a by (simp_all add: client_A_stored_def store_calls_def Store_keeps_identity)
  have "client_ring_holds 0 (AllocateRoutingBuffer client_A) []"
    by (rule Allocate_holds) (simp_all add: client_A_def new_BGM_Client_def)
  then have "client_ring_holds 0 client_A_stored ([] @ concat (map fst ?calls))"
    unfolding client_A_stored_def
    by (rule store_calls_holds) (simp_all add: kRoutingBufferFrames_def kRoutingBufferChannels_def)
  then have h: "client_ring_holds 0 client_A_stored [F32 10, F32 11, F32 20, F32 21]"
    by simp
  have w: "unat (mRoutingBufferWritePos client_A_stored) = 2"
    using holds_allocated [OF h] by simp
  show "FetchFromRoutingBuffer client_A_stored 0 2 = F32 10"
    using Fetch_holds [OF h, of 0 2] w by simp
  show "FetchFromRoutingBuffer client_A_stored 1 2 = F32 11"
    using Fetch_holds [OF h, of 1 2] w by simp
  show "FetchFromRoutingBuffer client_A_stored 0 1 = F32 20"
    using Fetch_holds [OF h, of 0 1] w by simp
  show "FetchFromRoutingBuffer client_A_stored 1 1 = F32 21"
    using Fetch_holds [OF h, of 1 1] w by simp
qed

theorem MixRoutedAudioRT_adds_routed_samples_witness:
  "\<forall>f32_add f32_mul.
     MixRoutedAudioRT f32_add f32_mul engine_routing 2 [F32 1, F32 2, F32 3, F32 4] 2 ! 0
       = f32_add (F32 1) (f32_mul (F32 10) f32_half) \<and>
     MixRoutedAudioRT f32_add f32_mul engine_routing 2 [F32 1, F32 2, F32 3, F32 4] 2 ! 1
       = f32_add (F32 2) (f32_mul (F32 11) f32_half) \<and>
     MixRoutedAudioRT f32_add f32_mul engine_routing 2 [F32 1, F32 2, F32 3, F32 4] 2 ! 2
       = f32_add (F32 3) (f32_mul (F32 20) f32_half) \<and>
     MixRoutedAudioRT f32_add f32_mul engine_routing 2 [F32 1, F32 2, F32 3, F32 4] 2 ! 3
       = f32_add (F32 4) (f32_mul (F32 21) f32_half)"
proof (intro allI)
  fix f32_add f32_mul :: "Float32 \<Rightarrow> Float32 \<Rightarrow> Float32"
  let ?io = "[F32 1, F32 2, F32 3, F32 4]"
  let ?m = "mClientMap engine_routing"
  have m: "?m = [client_A_stored, client_B, client_C]"
    and r: "mRoutes engine_routing =
      [\<lparr>mSourcePID = 100, mDestPID = 102, mGain = f32_one, mEnabled = True\<rparr>,
       \<lparr>mSourcePID = 100, mDestPID = 101, mGain = f32_half, mEnabled = True\<rparr>,
       \<lparr>mSourcePID = 102, mDestPID = 101, mGain = f32_one, mEnabled = False\<rparr>,
       \<lparr>mSourcePID = 999, mDestPID = 101, mGain = f32_one, mEnabled = True\<rparr>]"
    by (simp_all add: engine_routing_def)
  have ids: "mClientID client_B = 2" "mProcessID client_B = 101" "mProcessID client_C = 102"
    by (simp_all add: client_B_def client_C_def new_BGM_Client_def)
  have dest: "GetClientPtrRT ?m 2 = Some client_B"
    by (simp add: GetClientPtrRT_def m client_A_stored_facts ids)
  have src: "GetClientByPIDRT ?m 100 = Some client_A_stored" "GetClientByPIDRT ?m 999 = None"
    "GetClientByPIDRT ?m 102 = Some client_C"
    by (simp_all add: GetClientByPIDRT_def m client_A_stored_facts ids)
  have mixed: "mixed_sample f32_add f32_mul ?m 101 (mRoutes engine_routing) ch k x =
      f32_add x (f32_mul (FetchFromRoutingBuffer client_A_stored ch (word_of_nat k)) f32_half)"
    for ch k x
    by (simp add: mixed_sample_def r route_contributes_def add_contribution_def src)
  have t: "\<forall>i < unat (2 :: UInt32).
       MixRoutedAudioRT f32_add f32_mul engine_routing 2 ?io 2 ! (2 * i) =
         mixed_sample f32_add f32_mul ?m (mProcessID client_B) (mRoutes engine_routing) 0
           (unat (2 :: UInt32) - i) (?io ! (2 * i)) \<and>
       MixRoutedAudioRT f32_add f32_mul engine_routing 2 ?io 2 ! (2 * i + 1) =
         mixed_sample f32_add f32_mul ?m (mProcessID client_B) (mRoutes engine_routing) 1
           (unat (2 :: UInt32) - i) (?io ! (2 * i + 1))"
    using MixRoutedAudioRT_adds_routed_samples [OF dest, of 2 ?io f32_add f32_mul] by simp
  have t0: "MixRoutedAudioRT f32_add f32_mul engine_routing 2 ?io 2 ! 0 =
      mixed_sample f32_add f32_mul ?m 101 (mRoutes engine_routing) 0 2 (F32 1)"
    and t1: "MixRoutedAudioRT f32_add f32_mul engine_routing 2 ?io 2 ! 1 =
      mixed_sample f32_add f32_mul ?m 101 (mRoutes engine_routing) 1 2 (F32 2)"
    using t [rule_format, of 0] ids by simp_all
  have t2: "MixRoutedAudioRT f32_add f32_mul engine_routing 2 ?io 2 ! 2 =
      mixed_sample f32_add f32_mul ?m 101 (mRoutes engine_routing) 0 1 (F32 3)"
    and t3: "MixRoutedAudioRT f32_add f32_mul engine_routing 2 ?io 2 ! 3 =
      mixed_sample f32_add f32_mul ?m 101 (mRoutes engine_routing) 1 1 (F32 4)"
    using t [rule_format, of 1] ids by simp_all
  show "MixRoutedAudioRT f32_add f32_mul engine_routing 2 ?io 2 ! 0
       = f32_add (F32 1) (f32_mul (F32 10) f32_half) \<and>
     MixRoutedAudioRT f32_add f32_mul engine_routing 2 ?io 2 ! 1
       = f32_add (F32 2) (f32_mul (F32 11) f32_half) \<and>
     MixRoutedAudioRT f32_add f32_mul engine_routing 2 ?io 2 ! 2
       = f32_add (F32 3) (f32_mul (F32 20) f32_half) \<and>
     MixRoutedAudioRT f32_add f32_mul engine_routing 2 ?io 2 ! 3
       = f32_add (F32 4) (f32_mul (F32 21) f32_half)"
    by (simp only: t0 t1 t2 t3 mixed) (simp add: client_A_stored_facts)
qed

end
